theory Spec2Isabelle
  imports Main "HOL-Library.Sublist" "HOL-Library.Monad_Syntax"
begin

section \<open>The validation script \<open>validate_agent35.py\<close>\<close>

text \<open>
  The script reads two text artifacts, extracts planet records from the first with a
  regular expression, prints a report and a final verdict. The model below follows the
  script line by line. A Python \<open>str\<close> is the list of its code points, natural numbers;
  \<open>str_of\<close> turns a literal of the script into such a list. The report is the list of the
  printed lines.
\<close>

type_synonym str = "nat list"

definition str_of :: "string \<Rightarrow> str" where
  "str_of s = map of_char s"

lemma str_of_simps [simp]:
  "str_of [] = []"
  "str_of (c # cs) = of_char c # str_of cs"
  by (simp_all add: str_of_def)

lemma str_of_append [simp]: "str_of (xs @ ys) = str_of xs @ str_of ys"
  by (simp add: str_of_def)

subsection \<open>Characters, \<open>str.split\<close>, \<open>str.find\<close>, slices and \<open>in\<close>\<close>

text \<open>
  The whitespace of \<open>str.split()\<close> and of \<open>\s\<close> in a pattern on \<open>str\<close> is the same set,
  that of \<open>str.isspace\<close>: the ASCII codes 9 to 13, 28 to 31 and 32, and beyond ASCII
  U+0085, U+00A0, U+1680, U+2000 to U+200A, U+2028, U+2029, U+202F, U+205F and U+3000.
\<close>

definition is_space :: "nat \<Rightarrow> bool" where
  "is_space c =
     ((9 \<le> c \<and> c \<le> 13) \<or> (28 \<le> c \<and> c \<le> 32) \<or> c = 0x85 \<or> c = 0xA0 \<or> c = 0x1680
      \<or> (0x2000 \<le> c \<and> c \<le> 0x200A) \<or> c = 0x2028 \<or> c = 0x2029 \<or> c = 0x202F
      \<or> c = 0x205F \<or> c = 0x3000)"

text \<open>
  \<open>\w\<close> in a pattern on \<open>str\<close> matches the underscore and every code point that
  \<open>str.isalnum\<close> accepts. On ASCII these are the letters and the digits. Beyond ASCII they
  are given by the Unicode database of the interpreter, a table of many thousand entries
  that is not part of the script: it is the parameter \<open>alnum\<close> of the model, and every
  property below holds for every such table.
\<close>

definition is_word :: "(nat \<Rightarrow> bool) \<Rightarrow> nat \<Rightarrow> bool" where
  "is_word alnum c =
     (if c < 128
      then (48 \<le> c \<and> c \<le> 57) \<or> (65 \<le> c \<and> c \<le> 90) \<or> (97 \<le> c \<and> c \<le> 122) \<or> c = 95
      else alnum c)"

text \<open>\<open>s.split()\<close>: the maximal runs of non-whitespace characters, in order.\<close>

function py_split :: "str \<Rightarrow> str list" where
  "py_split s =
     (case dropWhile is_space s of
        [] \<Rightarrow> []
      | c # cs \<Rightarrow> takeWhile (\<lambda>x. \<not> is_space x) (c # cs)
                 # py_split (dropWhile (\<lambda>x. \<not> is_space x) cs))"
  by pat_completeness auto
termination
proof (relation "measure length", goal_cases)
  case 1
  show ?case by simp
next
  case (2 s c cs)
  have "length (dropWhile (\<lambda>x. \<not> is_space x) cs) \<le> length cs"
    by (rule length_dropWhile_le)
  moreover have "length (c # cs) \<le> length s"
    using length_dropWhile_le [of is_space s] 2 by simp
  ultimately show ?case by simp
qed

declare py_split.simps [simp del]

text \<open>
  \<open>s.find(sub)\<close>: the lowest index at which \<open>sub\<close> occurs in \<open>s\<close>, or \<open>-1\<close>.
  \<open>find_from k sub s\<close> searches \<open>s\<close>, whose first character has index \<open>k\<close>.
\<close>

fun find_from :: "nat \<Rightarrow> str \<Rightarrow> str \<Rightarrow> int" where
  "find_from k sub [] = (if sub = [] then int k else - 1)"
| "find_from k sub (c # cs) =
     (if prefix sub (c # cs) then int k else find_from (Suc k) sub cs)"

definition py_find :: "str \<Rightarrow> str \<Rightarrow> int" where
  "py_find s sub = find_from 0 sub s"

text \<open>
  \<open>s[i:j]\<close>: a negative index counts from the end, and each index is clamped to
  \<open>0 .. len(s)\<close>; the slice is empty when the start is not before the stop.
\<close>

definition slice_index :: "nat \<Rightarrow> int \<Rightarrow> nat" where
  "slice_index n i = (if i < 0 then nat (max 0 (i + int n)) else min (nat i) n)"

definition py_slice :: "str \<Rightarrow> int \<Rightarrow> int \<Rightarrow> str" where
  "py_slice s i j =
     (let lo = slice_index (length s) i; hi = slice_index (length s) j
      in take (hi - lo) (drop lo s))"

text \<open>\<open>sub in s\<close>.\<close>

fun py_in :: "str \<Rightarrow> str \<Rightarrow> bool" where
  "py_in sub [] = (sub = [])"
| "py_in sub (c # cs) = (prefix sub (c # cs) \<or> py_in sub cs)"

text \<open>
  \<open>len(re.findall(lit, s))\<close> for a pattern that matches the non-empty literal \<open>lit\<close> only:
  the matches are found left to right and do not overlap, the scan resuming after each.
\<close>

fun count_literal :: "str \<Rightarrow> str \<Rightarrow> nat" where
  "count_literal lit [] = 0"
| "count_literal lit (c # cs) =
     (if prefix lit (c # cs) then Suc (count_literal lit (drop (length lit - 1) cs))
      else count_literal lit cs)"

subsection \<open>The regular expressions\<close>

text \<open>
  Each pattern of the script is matched by a function that follows the pattern piece by
  piece and returns the captured groups with the text after the match, or \<open>None\<close>.
  A greedy \<open>\s+\<close>, \<open>\w+\<close> or \<open>[^"]+\<close> is always followed by a character outside its own
  class, so it takes the whole run and giving back characters cannot help; the lazy \<open>.*?\<close>
  (with \<open>re.DOTALL\<close>, any character) stops at the first position where the rest matches.
\<close>

definition dquote :: nat where
  "dquote = 0x22"

definition rbracket :: nat where
  "rbracket = 0x5D"

definition match_lit :: "str \<Rightarrow> str \<Rightarrow> str option" where
  "match_lit lit s = (if prefix lit s then Some (drop (length lit) s) else None)"

text \<open>\<open>\s+\<close>\<close>

definition match_spaces :: "str \<Rightarrow> str option" where
  "match_spaces s = (if takeWhile is_space s = [] then None else Some (dropWhile is_space s))"

text \<open>\<open>description:\s+"([^"]+)"\<close>\<close>

definition match_description :: "str \<Rightarrow> (str \<times> str) option" where
  "match_description s = do {
     s1 \<leftarrow> match_lit (str_of ''description:'') s;
     s2 \<leftarrow> match_spaces s1;
     s3 \<leftarrow> match_lit [dquote] s2;
     let desc = takeWhile (\<lambda>c. c \<noteq> dquote) s3;
     s4 \<leftarrow> match_lit [dquote] (dropWhile (\<lambda>c. c \<noteq> dquote) s3);
     if desc = [] then None else Some (desc, s4)
   }"

text \<open>\<open>.*?description:\s+"([^"]+)"\<close>\<close>

fun skip_to_description :: "str \<Rightarrow> (str \<times> str) option" where
  "skip_to_description [] = match_description []"
| "skip_to_description (c # cs) =
     (case match_description (c # cs) of
        Some r \<Rightarrow> Some r
      | None \<Rightarrow> skip_to_description cs)"

text \<open>
  \<open>planet_pattern\<close>, matched at the start of \<open>s\<close>:
  \<open>VedicPlanet::(\w+),\s+PlanetaryPeriodQualities\s+{.*?description:\s+"([^"]+)"\<close>
\<close>

definition match_planet :: "(nat \<Rightarrow> bool) \<Rightarrow> str \<Rightarrow> ((str \<times> str) \<times> str) option" where
  "match_planet alnum s = do {
     s1 \<leftarrow> match_lit (str_of ''VedicPlanet::'') s;
     let planet = takeWhile (is_word alnum) s1;
     s2 \<leftarrow> match_lit (str_of '','') (dropWhile (is_word alnum) s1);
     s3 \<leftarrow> match_spaces s2;
     s4 \<leftarrow> match_lit (str_of ''PlanetaryPeriodQualities'') s3;
     s5 \<leftarrow> match_spaces s4;
     s6 \<leftarrow> match_lit (str_of ''{'') s5;
     (desc, rest) \<leftarrow> skip_to_description s6;
     if planet = [] then None else Some ((planet, desc), rest)
   }"

lemma match_lit_length: "match_lit lit s = Some r \<Longrightarrow> length r + length lit = length s"
  by (auto simp: match_lit_def prefix_def split: if_splits)

lemma match_spaces_length: "match_spaces s = Some r \<Longrightarrow> length r \<le> length s"
  by (auto simp: match_spaces_def length_dropWhile_le split: if_splits)

lemma match_description_length:
  assumes "match_description s = Some (d, r)"
  shows "length r < length s"
proof -
  from assms obtain s1 s2 s3 where
    s1: "match_lit (str_of ''description:'') s = Some s1" and
    s2: "match_spaces s1 = Some s2" and
    s3: "match_lit [dquote] s2 = Some s3" and
    r: "match_lit [dquote] (dropWhile (\<lambda>c. c \<noteq> dquote) s3) = Some r"
    by (auto simp: match_description_def Let_def split: bind_splits if_splits)
  have "length (dropWhile (\<lambda>c. c \<noteq> dquote) s3) \<le> length s3"
    by (rule length_dropWhile_le)
  with match_lit_length [OF s1] match_spaces_length [OF s2] match_lit_length [OF s3]
    match_lit_length [OF r]
  show ?thesis by simp
qed

lemma skip_to_description_length:
  "skip_to_description s = Some (d, r) \<Longrightarrow> length r < length s"
proof (induction s)
  case Nil
  then show ?case by (auto dest: match_description_length)
next
  case (Cons c cs)
  then show ?case
    by (fastforce split: option.splits dest: match_description_length)
qed

lemma match_planet_length:
  assumes "match_planet alnum s = Some (m, r)"
  shows "length r < length s"
proof -
  from assms obtain s1 s2 s3 s4 s5 s6 d where
    s1: "match_lit (str_of ''VedicPlanet::'') s = Some s1" and
    s6: "skip_to_description s6 = Some (d, r)" and
    s2: "match_lit (str_of '','') (dropWhile (is_word alnum) s1) = Some s2" and
    s3: "match_spaces s2 = Some s3" and
    s4: "match_lit (str_of ''PlanetaryPeriodQualities'') s3 = Some s4" and
    s5: "match_spaces s4 = Some s5" and
    s6': "match_lit (str_of ''{'') s5 = Some s6"
    by (auto simp: match_planet_def Let_def split: bind_splits if_splits)
  have "length (dropWhile (is_word alnum) s1) \<le> length s1"
    by (rule length_dropWhile_le)
  with match_lit_length [OF s1] match_lit_length [OF s2] match_spaces_length [OF s3]
    match_lit_length [OF s4] match_spaces_length [OF s5] match_lit_length [OF s6']
    skip_to_description_length [OF s6]
  show ?thesis by simp
qed

text \<open>
  \<open>re.findall(planet_pattern, content, re.DOTALL)\<close>: the pairs of groups of the matches,
  leftmost first, the scan resuming where each match ends.
\<close>

function findall_planets :: "(nat \<Rightarrow> bool) \<Rightarrow> str \<Rightarrow> (str \<times> str) list" where
  "findall_planets alnum s =
     (case match_planet alnum s of
        Some (m, rest) \<Rightarrow> m # findall_planets alnum rest
      | None \<Rightarrow> (case s of [] \<Rightarrow> [] | c # cs \<Rightarrow> findall_planets alnum cs))"
  by pat_completeness auto
termination
  by (relation "measure (\<lambda>(alnum, s). length s)") (auto dest: match_planet_length)

declare findall_planets.simps [simp del]

text \<open>\<open>(.*?)\]\<close>: the group is the text before the first closing bracket.\<close>

fun lazy_to_bracket :: "str \<Rightarrow> (str \<times> str) option" where
  "lazy_to_bracket [] = None"
| "lazy_to_bracket (c # cs) =
     (if c = rbracket then Some ([], cs)
      else map_option (\<lambda>(g, r). (c # g, r)) (lazy_to_bracket cs))"

text \<open>
  The four list patterns differ in the field name only:
  \<open>themes:\s+vec!\[(.*?)\]\<close>, and the same for \<open>life_areas\<close>, \<open>challenges\<close>, \<open>opportunities\<close>.
\<close>

definition theme_pattern :: str where
  "theme_pattern = str_of ''themes''"

definition life_areas_pattern :: str where
  "life_areas_pattern = str_of ''life_areas''"

definition challenges_pattern :: str where
  "challenges_pattern = str_of ''challenges''"

definition opportunities_pattern :: str where
  "opportunities_pattern = str_of ''opportunities''"

definition match_field :: "str \<Rightarrow> str \<Rightarrow> (str \<times> str) option" where
  "match_field field s = do {
     s1 \<leftarrow> match_lit (field @ str_of '':'') s;
     s2 \<leftarrow> match_spaces s1;
     s3 \<leftarrow> match_lit (str_of ''vec!['') s2;
     lazy_to_bracket s3
   }"

lemma lazy_to_bracket_length: "lazy_to_bracket s = Some (g, r) \<Longrightarrow> length r < length s"
  by (induction s arbitrary: g) (auto split: if_splits)

lemma match_field_length:
  assumes "match_field field s = Some (g, r)"
  shows "length r < length s"
proof -
  from assms obtain s1 s2 s3 where
    s1: "match_lit (field @ str_of '':'') s = Some s1" and
    s2: "match_spaces s1 = Some s2" and
    s3: "match_lit (str_of ''vec!['') s2 = Some s3" and
    r: "lazy_to_bracket s3 = Some (g, r)"
    by (auto simp: match_field_def split: bind_splits)
  from match_lit_length [OF s1] match_spaces_length [OF s2] match_lit_length [OF s3]
    lazy_to_bracket_length [OF r]
  show ?thesis by simp
qed

function findall_field :: "str \<Rightarrow> str \<Rightarrow> str list" where
  "findall_field field s =
     (case match_field field s of
        Some (g, rest) \<Rightarrow> g # findall_field field rest
      | None \<Rightarrow> (case s of [] \<Rightarrow> [] | c # cs \<Rightarrow> findall_field field cs))"
  by pat_completeness auto
termination
  by (relation "measure (\<lambda>(field, s). length s)") (auto dest: match_field_length)

declare findall_field.simps [simp del]

text \<open>
  \<open>count_items(pattern, content)\<close>: the number of \<open>.to_string()\<close> in the group of the first
  match of the pattern, 0 when there is no match.
\<close>

definition count_items :: "str \<Rightarrow> str \<Rightarrow> nat" where
  "count_items pattern content =
     (case findall_field pattern content of
        [] \<Rightarrow> 0
      | m # ms \<Rightarrow> count_literal (str_of ''.to_string()'') m)"

subsection \<open>Formatting\<close>

text \<open>\<open>str(n)\<close> of a natural number, and the format specifications \<open>:10\<close> of a string
  (padded on the right to ten characters) and \<open>:3\<close> of a number (padded on the left to three).\<close>

fun str_nat :: "nat \<Rightarrow> str" where
  "str_nat n = (if n < 10 then [48 + n] else str_nat (n div 10) @ [48 + n mod 10])"

declare str_nat.simps [simp del]

definition ljust :: "nat \<Rightarrow> str \<Rightarrow> str" where
  "ljust w s = s @ replicate (w - length s) 32"

definition rjust :: "nat \<Rightarrow> str \<Rightarrow> str" where
  "rjust w s = replicate (w - length s) 32 @ s"

text \<open>The status symbols U+2713, U+2705, U+274C and U+2717.\<close>

definition check_mark :: str where
  "check_mark = [0x2713]"

definition green_check :: str where
  "green_check = [0x2705]"

definition red_cross :: str where
  "red_cross = [0x274C]"

definition ballot_x :: str where
  "ballot_x = [0x2717]"

definition rule70 :: str where
  "rule70 = replicate 70 61"

subsection \<open>Extraction of the planet records (lines 24 to 34)\<close>

record entry =
  description :: str
  word_count :: nat
  valid :: bool

text \<open>The loop over the matches, on the state \<open>(planets_found, descriptions)\<close>.\<close>

fun collect ::
  "(str \<times> str) list \<Rightarrow> str list \<times> (str \<rightharpoonup> entry) \<Rightarrow> str list \<times> (str \<rightharpoonup> entry)"
where
  "collect [] st = st"
| "collect ((planet, desc) # ms) (planets_found, descriptions) =
     (let word_count = length (py_split desc)
      in collect ms
           (planets_found @ [planet],
            descriptions(planet \<mapsto>
              \<lparr>description = desc, word_count = word_count, valid = (word_count > 50)\<rparr>)))"

text \<open>Lines 17 to 34: the matches of the pattern, run through the loop.\<close>

definition extract_planet_records ::
  "(nat \<Rightarrow> bool) \<Rightarrow> str \<Rightarrow> str list \<times> (str \<rightharpoonup> entry)" where
  "extract_planet_records alnum content =
     collect (findall_planets alnum content) ([], Map.empty)"

definition expected_planets :: "str list" where
  "expected_planets =
     map str_of [''Sun'', ''Moon'', ''Mars'', ''Mercury'', ''Jupiter'', ''Venus'', ''Saturn'',
                 ''Rahu'', ''Ketu'']"

subsection \<open>The check of each expected planet (lines 39 to 53)\<close>

definition found_line :: "nat \<Rightarrow> str" where
  "found_line n = check_mark @ str_of '' Planets Found: '' @ str_nat n @ str_of ''/9''"

definition planet_line :: "str \<Rightarrow> entry \<Rightarrow> str" where
  "planet_line planet data =
     (if valid data then green_check else red_cross) @ str_of '' '' @ ljust 10 planet
     @ str_of '' - '' @ rjust 3 (str_nat (word_count data)) @ str_of '' words ''
     @ (if valid data then str_of ''(PASS)'' else str_of ''(FAIL: <50 words)'')"

definition missing_line :: "str \<Rightarrow> str" where
  "missing_line planet = red_cross @ str_of '' '' @ ljust 10 planet @ str_of '' - MISSING''"

text \<open>The loop over \<open>expected_planets\<close>, on the state of the printed lines and \<open>all_valid\<close>.\<close>

fun check_planets ::
  "str list \<Rightarrow> (str \<rightharpoonup> entry) \<Rightarrow> str list \<times> bool \<Rightarrow> str list \<times> bool"
where
  "check_planets [] descriptions st = st"
| "check_planets (planet # ps) descriptions (out, all_valid) =
     (case descriptions planet of
        Some data \<Rightarrow>
          check_planets ps descriptions
            (out @ [planet_line planet data], if \<not> valid data then False else all_valid)
      | None \<Rightarrow>
          check_planets ps descriptions (out @ [missing_line planet], False))"

subsection \<open>The list fields of the Sun record (lines 58 to 87)\<close>

text \<open>
  Line 75 cuts the section of the Sun out of the content with two \<open>find\<close>s and a slice;
  \<open>isolate_section\<close> is that expression for any two markers.
\<close>

definition isolate_section :: "str \<Rightarrow> str \<Rightarrow> str \<Rightarrow> str" where
  "isolate_section content start_marker end_marker =
     py_slice content (py_find content start_marker) (py_find content end_marker)"

definition sun_section :: "str \<Rightarrow> str" where
  "sun_section content =
     isolate_section content (str_of ''VedicPlanet::Sun,'') (str_of ''VedicPlanet::Moon,'')"

definition completeness_lines :: "str \<Rightarrow> str list" where
  "completeness_lines content =
     (let section = sun_section content;
          themes_count = count_items theme_pattern section;
          life_areas_count = count_items life_areas_pattern section;
          challenges_count = count_items challenges_pattern section;
          opportunities_count = count_items opportunities_pattern section
      in [str_of ''DATA COMPLETENESS CHECK'', rule70,
          str_of ''Sun Planet Validation:'',
          str_of ''  Themes:        '' @ str_nat themes_count @ str_of '' items'',
          str_of ''  Life Areas:    '' @ str_nat life_areas_count @ str_of '' items'',
          str_of ''  Challenges:    '' @ str_nat challenges_count @ str_of '' items'',
          str_of ''  Opportunities: '' @ str_nat opportunities_count @ str_of '' items'',
          []])"

subsection \<open>The witness module (lines 89 to 109)\<close>

text \<open>
  Opening and reading a file either gives its text or raises. The \<open>try\<close> statement has
  one handler, for \<open>FileNotFoundError\<close>; every other exception leaves the script.
\<close>

datatype py_exception = FileNotFoundError | PermissionError | IsADirectoryError | UnicodeDecodeError

type_synonym file_read = "py_exception + str"

definition function_line :: "bool \<Rightarrow> str \<Rightarrow> str" where
  "function_line has label = (if has then check_mark else ballot_x) @ str_of '' '' @ label"

definition witness_lines :: "str \<Rightarrow> str list" where
  "witness_lines witness_content =
     (let test_count = count_literal (str_of ''#[test]'') witness_content;
          has_beginner = py_in (str_of ''generate_beginner_prompt'') witness_content;
          has_intermediate = py_in (str_of ''generate_intermediate_prompt'') witness_content;
          has_advanced = py_in (str_of ''generate_advanced_prompt'') witness_content
      in [check_mark @ str_of '' Witness module exists'',
          check_mark @ str_of '' Unit tests found: '' @ str_nat test_count,
          function_line has_beginner (str_of ''Beginner prompt function''),
          function_line has_intermediate (str_of ''Intermediate prompt function''),
          function_line has_advanced (str_of ''Advanced prompt function'')])"

text \<open>The lines printed, the new value of \<open>all_valid\<close> and the exception that escapes, if any.\<close>

fun witness_section :: "file_read \<Rightarrow> bool \<Rightarrow> str list \<times> bool \<times> py_exception option" where
  "witness_section (Inr witness_content) all_valid =
     (witness_lines witness_content, all_valid, None)"
| "witness_section (Inl FileNotFoundError) all_valid =
     ([ballot_x @ str_of '' witness.rs NOT FOUND''], False, None)"
| "witness_section (Inl e) all_valid = ([], all_valid, Some e)"

subsection \<open>The whole script\<close>

definition passed_line :: str where
  "passed_line = green_check @ str_of '' ALL VALIDATION CHECKS PASSED''"

definition failed_line :: str where
  "failed_line = red_cross @ str_of '' VALIDATION FAILED - See errors above''"

definition verdict_line :: "bool \<Rightarrow> nat \<Rightarrow> str" where
  "verdict_line all_valid n = (if all_valid \<and> n = 9 then passed_line else failed_line)"

text \<open>Lines 11 to 56: the printed lines, \<open>all_valid\<close> and \<open>len(planets_found)\<close>.\<close>

definition planets_section :: "(nat \<Rightarrow> bool) \<Rightarrow> str \<Rightarrow> str list \<times> bool \<times> nat" where
  "planets_section alnum content =
     (let (planets_found, descriptions) = extract_planet_records alnum content;
          out = [rule70, str_of ''AGENT 35 VALIDATION REPORT'', rule70, [],
                 found_line (length planets_found), []];
          (out, all_valid) = check_planets expected_planets descriptions (out, True)
      in (out @ [[], rule70], all_valid, length planets_found))"

record run_result =
  printed :: "str list"
  raised :: "py_exception option"

text \<open>
  A run of the script on the results of reading \<open>src/wisdom_data.rs\<close> and
  \<open>src/witness.rs\<close>. The first file is read outside any \<open>try\<close>, before anything is printed.
\<close>

definition validate_agent35 :: "(nat \<Rightarrow> bool) \<Rightarrow> file_read \<Rightarrow> file_read \<Rightarrow> run_result" where
  "validate_agent35 alnum primary secondary =
     (case primary of
        Inl e \<Rightarrow> \<lparr>printed = [], raised = Some e\<rparr>
      | Inr content \<Rightarrow>
          (let (out, all_valid, n) = planets_section alnum content;
               out = out @ completeness_lines content;
               (wlines, all_valid, exc) = witness_section secondary all_valid
           in case exc of
                Some e \<Rightarrow> \<lparr>printed = out @ wlines, raised = Some e\<rparr>
              | None \<Rightarrow>
                  \<lparr>printed = out @ wlines @ [[], rule70, verdict_line all_valid n, rule70],
                   raised = None\<rparr>))"

section \<open>Properties\<close>

text \<open>
  In the sample files below no identifier has a character beyond ASCII, so every table of
  the alphanumerics beyond ASCII gives the same runs on them; the empty one is taken.
\<close>

definition no_alnum :: "nat \<Rightarrow> bool" where
  "no_alnum c = False"

subsection \<open>The three ways a run can go after the first file is read\<close>

lemma run_witness_read:
  "validate_agent35 alnum (Inr content) (Inr w) =
     (case planets_section alnum content of
        (out, all_valid, n) \<Rightarrow>
          \<lparr>printed = out @ completeness_lines content @ witness_lines w
                     @ [[], rule70, verdict_line all_valid n, rule70],
           raised = None\<rparr>)"
  by (simp add: validate_agent35_def split: prod.splits)

lemma run_witness_missing:
  "validate_agent35 alnum (Inr content) (Inl FileNotFoundError) =
     (case planets_section alnum content of
        (out, all_valid, n) \<Rightarrow>
          \<lparr>printed = out @ completeness_lines content
                     @ [ballot_x @ str_of '' witness.rs NOT FOUND'']
                     @ [[], rule70, verdict_line False n, rule70],
           raised = None\<rparr>)"
  by (simp add: validate_agent35_def split: prod.splits)

lemma run_witness_unreadable:
  "e \<noteq> FileNotFoundError \<Longrightarrow>
   validate_agent35 alnum (Inr content) (Inl e) =
     (case planets_section alnum content of
        (out, all_valid, n) \<Rightarrow>
          \<lparr>printed = out @ completeness_lines content, raised = Some e\<rparr>)"
  by (cases e) (simp_all add: validate_agent35_def split: prod.splits)

lemma verdict_line_False [simp]: "verdict_line False n = failed_line"
  by (simp add: verdict_line_def)

lemma last_butlast_verdict [simp]:
  "last (butlast (xs @ ys @ a # b # c # [v, d])) = v"
  "last (butlast (xs @ ys @ a # b # [v, d])) = v"
  by (simp_all add: butlast_append)

subsection \<open>The witness module is absent\<close>

text \<open>
  C4. When \<open>src/witness.rs\<close> does not exist, no exception leaves the script, the report
  has the line that marks the module NOT FOUND, and the verdict, the last line but one,
  is the line of failure.
\<close>

theorem witness_absent_reported:
  "raised (validate_agent35 alnum (Inr content) (Inl FileNotFoundError)) = None
   \<and> ballot_x @ str_of '' witness.rs NOT FOUND''
       \<in> set (printed (validate_agent35 alnum (Inr content) (Inl FileNotFoundError)))
   \<and> last (butlast (printed (validate_agent35 alnum (Inr content) (Inl FileNotFoundError))))
       = failed_line"
  by (simp add: run_witness_missing split: prod.splits)

subsection \<open>Other errors of the second read\<close>

text \<open>
  C10. The handler covers \<open>FileNotFoundError\<close> only. Any other exception raised while
  \<open>src/witness.rs\<close> is opened or read leaves the script: the run ends with that exception,
  and the report stops after the list-field section, before any line of the witness
  section and before the verdict. With \<open>FileNotFoundError\<close> the same report goes on to
  the NOT FOUND line and the verdict, and nothing is raised.
\<close>

theorem unhandled_read_error_propagates:
  assumes "e \<noteq> FileNotFoundError"
  shows "raised (validate_agent35 alnum (Inr content) (Inl e)) = Some e
         \<and> printed (validate_agent35 alnum (Inr content) (Inl e))
             = fst (planets_section alnum content) @ completeness_lines content
         \<and> raised (validate_agent35 alnum (Inr content) (Inl FileNotFoundError)) = None
         \<and> printed (validate_agent35 alnum (Inr content) (Inl FileNotFoundError))
             = printed (validate_agent35 alnum (Inr content) (Inl e))
               @ [ballot_x @ str_of '' witness.rs NOT FOUND'', [], rule70, failed_line, rule70]"
  using assms by (simp add: run_witness_unreadable run_witness_missing split: prod.splits)

text \<open>The rule of 70 equals signs, by its first character.\<close>

lemma rule70_Cons: "rule70 = 61 # replicate 69 61"
proof -
  have "(70 :: nat) = Suc 69"
    by simp
  then show ?thesis
    unfolding rule70_def by (metis replicate_Suc)
qed

lemma findall_planets_Nil: "findall_planets alnum [] = []"
  by (subst findall_planets.simps) (simp add: match_planet_def match_lit_def)

lemma findall_field_Nil: "findall_field field [] = []"
  by (subst findall_field.simps) (simp add: match_field_def match_lit_def)

text \<open>An empty data file and a witness module that cannot be read.\<close>

theorem unhandled_read_error_propagates_witness:
  "PermissionError \<noteq> FileNotFoundError
   \<and> raised (validate_agent35 no_alnum (Inr []) (Inl PermissionError)) = Some PermissionError
   \<and> failed_line \<notin> set (printed (validate_agent35 no_alnum (Inr []) (Inl PermissionError)))
   \<and> passed_line \<notin> set (printed (validate_agent35 no_alnum (Inr []) (Inl PermissionError)))"
proof -
  have ne: "PermissionError \<noteq> FileNotFoundError"
    by simp
  have c: "count_items field [] = 0" for field
    by (simp add: count_items_def findall_field_Nil)
  have out: "failed_line \<notin> set (fst (planets_section no_alnum []) @ completeness_lines [])
           \<and> passed_line \<notin> set (fst (planets_section no_alnum []) @ completeness_lines [])"
    by (simp add: planets_section_def extract_planet_records_def findall_planets_Nil
        completeness_lines_def sun_section_def isolate_section_def py_slice_def c
        expected_planets_def missing_line_def found_line_def failed_line_def passed_line_def
        red_cross_def green_check_def check_mark_def rule70_Cons)
  show ?thesis
    using unhandled_read_error_propagates [OF ne, of no_alnum "[]"] out
    by simp
qed

subsection \<open>The content of the witness module and the verdict\<close>

text \<open>
  C8. For one content of the first file and any two contents of the witness module, both
  runs end normally, their reports are the same lines before and after the five lines of
  the witness section, the first of these five lines is the same too, and so is the
  verdict. The runs can differ in the line of the number of tests and in the three lines
  of the prompt functions only.
\<close>

theorem verdict_ignores_witness_content:
  "\<exists>before after.
     printed (validate_agent35 alnum (Inr content) (Inr w1)) = before @ witness_lines w1 @ after
     \<and> printed (validate_agent35 alnum (Inr content) (Inr w2)) = before @ witness_lines w2 @ after
     \<and> length (witness_lines w1) = 5 \<and> length (witness_lines w2) = 5
     \<and> hd (witness_lines w1) = hd (witness_lines w2)
     \<and> last (butlast (printed (validate_agent35 alnum (Inr content) (Inr w1))))
         = last (butlast (printed (validate_agent35 alnum (Inr content) (Inr w2))))
     \<and> raised (validate_agent35 alnum (Inr content) (Inr w1)) = None
     \<and> raised (validate_agent35 alnum (Inr content) (Inr w2)) = None"
proof -
  obtain out all_valid n where ps: "planets_section alnum content = (out, all_valid, n)"
    by (cases "planets_section alnum content") auto
  define before where "before = out @ completeness_lines content"
  define after where "after = [[], rule70, verdict_line all_valid n, rule70]"
  have r: "printed (validate_agent35 alnum (Inr content) (Inr w)) = before @ witness_lines w @ after"
    "raised (validate_agent35 alnum (Inr content) (Inr w)) = None" for w
    by (simp_all add: run_witness_read ps before_def after_def)
  have v: "last (butlast (before @ witness_lines w @ after)) = verdict_line all_valid n" for w
    by (simp add: after_def butlast_append)
  have l: "length (witness_lines w) = 5"
    "hd (witness_lines w) = check_mark @ str_of '' Witness module exists''" for w
    by (simp_all add: witness_lines_def Let_def)
  show ?thesis
    using r v l by metis
qed

subsection \<open>The two loops in closed form\<close>

text \<open>The entry that line 30 stores for a description.\<close>

definition entry_of :: "str \<Rightarrow> entry" where
  "entry_of desc =
     \<lparr>description = desc, word_count = length (py_split desc),
      valid = (length (py_split desc) > 50)\<rparr>"

lemma entry_of_fields [simp]:
  "description (entry_of desc) = desc"
  "word_count (entry_of desc) = length (py_split desc)"
  "valid (entry_of desc) = (length (py_split desc) > 50)"
  by (simp_all add: entry_of_def)

text \<open>
  The first loop appends the identifier of every match to \<open>planets_found\<close>, and leaves
  in \<open>descriptions\<close>, for each identifier, the entry of its last match.
\<close>

lemma collect_eq:
  "collect ms (planets_found, descriptions) =
     (planets_found @ map fst ms,
      \<lambda>p. case map_of (rev ms) p of
             Some desc \<Rightarrow> Some (entry_of desc)
           | None \<Rightarrow> descriptions p)"
proof (induction ms arbitrary: planets_found descriptions)
  case Nil
  show ?case by simp
next
  case (Cons m ms)
  obtain planet desc where m: "m = (planet, desc)"
    by (cases m) auto
  show ?case
    unfolding m
    by (simp add: Cons.IH Let_def entry_of_def map_add_def fun_eq_iff split: option.splits)
qed

lemma extract_found:
  "fst (extract_planet_records alnum content) = map fst (findall_planets alnum content)"
  by (simp add: extract_planet_records_def collect_eq)

lemma extract_descriptions:
  "snd (extract_planet_records alnum content) p =
     map_option entry_of (map_of (rev (findall_planets alnum content)) p)"
  by (simp add: extract_planet_records_def collect_eq split: option.splits)

lemma extract_absent:
  "p \<notin> set (fst (extract_planet_records alnum content)) \<Longrightarrow>
   snd (extract_planet_records alnum content) p = None"
  by (simp add: extract_found extract_descriptions map_of_eq_None_iff)

lemma extract_present:
  "p \<in> set (fst (extract_planet_records alnum content)) \<Longrightarrow>
   \<exists>desc. (p, desc) \<in> set (findall_planets alnum content)
          \<and> snd (extract_planet_records alnum content) p = Some (entry_of desc)"
proof -
  assume "p \<in> set (fst (extract_planet_records alnum content))"
  then have "p \<in> fst ` set (rev (findall_planets alnum content))"
    by (simp add: extract_found)
  then obtain desc where d: "map_of (rev (findall_planets alnum content)) p = Some desc"
    by (meson domD domI map_of_eq_None_iff option.exhaust)
  then have "(p, desc) \<in> set (findall_planets alnum content)"
    by (auto dest: map_of_SomeD)
  with d show ?thesis
    by (auto simp: extract_descriptions)
qed

lemma extract_last_match:
  assumes "findall_planets alnum content = before @ (p, desc) # after"
    and "p \<notin> fst ` set after"
  shows "snd (extract_planet_records alnum content) p = Some (entry_of desc)"
proof -
  have "map_of (rev after) p = None"
    using assms(2) by (simp add: map_of_eq_None_iff)
  then have "map_of (rev (findall_planets alnum content)) p = Some desc"
    by (simp add: assms(1) map_add_def)
  then show ?thesis
    by (simp add: extract_descriptions)
qed

lemma extract_distinct_match:
  assumes "distinct (fst (extract_planet_records alnum content))"
    and "(p, d) \<in> set (findall_planets alnum content)"
  shows "snd (extract_planet_records alnum content) p = Some (entry_of d)"
proof -
  have "distinct (map fst (rev (findall_planets alnum content)))"
    using assms(1) by (simp add: extract_found rev_map [symmetric])
  then have "map_of (rev (findall_planets alnum content)) p = Some d"
    using assms(2) by (intro map_of_is_SomeI) auto
  then show ?thesis
    by (simp add: extract_descriptions)
qed

text \<open>The line that the second loop prints for an expected planet.\<close>

definition report_line :: "(str \<rightharpoonup> entry) \<Rightarrow> str \<Rightarrow> str" where
  "report_line descriptions planet =
     (case descriptions planet of
        Some data \<Rightarrow> planet_line planet data
      | None \<Rightarrow> missing_line planet)"

lemma check_planets_eq:
  "check_planets ps descriptions (out, all_valid) =
     (out @ map (report_line descriptions) ps,
      all_valid \<and> list_all (\<lambda>p. case descriptions p of Some data \<Rightarrow> valid data | None \<Rightarrow> False) ps)"
  by (induction ps arbitrary: out all_valid)
     (auto simp: report_line_def split: option.splits)

lemma planets_section_eq:
  "planets_section alnum content =
     ([rule70, str_of ''AGENT 35 VALIDATION REPORT'', rule70, [],
       found_line (length (findall_planets alnum content)), []]
      @ map (report_line (snd (extract_planet_records alnum content))) expected_planets
      @ [[], rule70],
      list_all (\<lambda>p. case snd (extract_planet_records alnum content) p of
                       Some data \<Rightarrow> valid data | None \<Rightarrow> False) expected_planets,
      length (findall_planets alnum content))"
proof -
  obtain planets_found descriptions where
    e: "extract_planet_records alnum content = (planets_found, descriptions)"
    by (cases "extract_planet_records alnum content") auto
  have "planets_found = map fst (findall_planets alnum content)"
    using extract_found [of alnum content] by (simp add: e)
  then show ?thesis
    by (simp add: planets_section_def check_planets_eq e)
qed

text \<open>Every run that gets past the first read prints the lines of the planets section.\<close>

lemma printed_planets_section:
  "set (fst (planets_section alnum content))
     \<subseteq> set (printed (validate_agent35 alnum (Inr content) secondary))"
proof (cases secondary)
  case (Inl e)
  then show ?thesis
    by (cases "e = FileNotFoundError")
       (auto simp: run_witness_missing run_witness_unreadable split: prod.splits)
next
  case (Inr w)
  then show ?thesis
    by (auto simp: run_witness_read split: prod.splits)
qed

lemma printed_report_line:
  assumes "planet \<in> set expected_planets"
  shows "report_line (snd (extract_planet_records alnum content)) planet
           \<in> set (printed (validate_agent35 alnum (Inr content) secondary))"
proof -
  have "report_line (snd (extract_planet_records alnum content)) planet
          \<in> set (fst (planets_section alnum content))"
    using assms by (simp add: planets_section_eq)
  then show ?thesis
    using printed_planets_section by blast
qed

text \<open>The verdict of every run that ends normally.\<close>

lemma normal_run_verdict:
  assumes "raised (validate_agent35 alnum (Inr content) secondary) = None"
  shows "\<exists>all_valid.
           last (butlast (printed (validate_agent35 alnum (Inr content) secondary)))
             = verdict_line all_valid (snd (snd (planets_section alnum content)))
           \<and> (all_valid \<longrightarrow> fst (snd (planets_section alnum content)))"
proof (cases secondary)
  case (Inl e)
  show ?thesis
  proof (cases "e = FileNotFoundError")
    case True
    with Inl show ?thesis
      by (intro exI [of _ False]) (simp add: run_witness_missing split: prod.splits)
  next
    case False
    with Inl assms show ?thesis
      by (simp add: run_witness_unreadable split: prod.splits)
  qed
next
  case (Inr w)
  then show ?thesis
    by (intro exI [of _ "fst (snd (planets_section alnum content))"])
       (simp add: run_witness_read butlast_append split: prod.splits)
qed

lemma expected_planets_distinct: "distinct expected_planets" "length expected_planets = 9"
  by (simp_all add: expected_planets_def)

lemma card_expected: "card (set expected_planets) = 9"
  using expected_planets_distinct by (simp add: distinct_card)

text \<open>Nine matches that cover the nine expected planets are one match for each.\<close>

lemma nine_found_distinct:
  assumes "set expected_planets \<subseteq> set found" and "length found = 9"
  shows "distinct found \<and> set found = set expected_planets"
proof -
  have "card (set found) \<le> 9"
    using card_length [of found] assms(2) by simp
  moreover have "9 \<le> card (set found)"
    using card_mono [OF _ assms(1)] card_expected by simp
  ultimately have c: "card (set found) = 9"
    by simp
  then have "distinct found"
    using assms(2) by (simp add: card_distinct)
  moreover have "set expected_planets = set found"
    using assms(1) c card_expected by (intro card_subset_eq) auto
  ultimately show ?thesis by simp
qed

subsection \<open>The extraction on records written in the usual form\<close>

text \<open>
  A record as the data file writes it, reduced to the parts the pattern looks at: the
  identifier, the name of the struct, the opening brace and the description field.
\<close>

definition planet_block :: "str \<Rightarrow> str \<Rightarrow> str" where
  "planet_block planet desc =
     str_of ''VedicPlanet::'' @ planet @ str_of '', PlanetaryPeriodQualities { description: ''
     @ [dquote] @ desc @ [dquote] @ str_of '' }, ''"

lemma match_lit_append [simp]: "match_lit lit (lit @ s) = Some s"
  by (simp add: match_lit_def)

lemma takeWhile_stop:
  "\<forall>x\<in>set xs. P x \<Longrightarrow> \<not> P y \<Longrightarrow> takeWhile P (xs @ y # ys) = xs"
  by (induction xs) auto

lemma dropWhile_stop:
  "\<forall>x\<in>set xs. P x \<Longrightarrow> \<not> P y \<Longrightarrow> dropWhile P (xs @ y # ys) = y # ys"
  by (induction xs) auto

lemma match_description_quoted:
  assumes "desc \<noteq> []" and "dquote \<notin> set desc"
  shows "match_description (str_of ''description: '' @ [dquote] @ desc @ dquote # rest)
         = Some (desc, rest)"
proof -
  have t: "takeWhile (\<lambda>c. c \<noteq> dquote) (desc @ dquote # rest) = desc"
    using assms(2) by (intro takeWhile_stop) auto
  have d: "dropWhile (\<lambda>c. c \<noteq> dquote) (desc @ dquote # rest) = dquote # rest"
    using assms(2) by (intro dropWhile_stop) auto
  show ?thesis
    using assms(1) t d
    by (simp add: match_description_def match_lit_def match_spaces_def is_space_def dquote_def)
qed

lemma match_planet_block:
  assumes "planet \<noteq> []" and "\<forall>c\<in>set planet. is_word alnum c"
    and "desc \<noteq> []" and "dquote \<notin> set desc"
  shows "match_planet alnum
           (str_of ''VedicPlanet::'' @ planet
            @ str_of '', PlanetaryPeriodQualities { description: '' @ [dquote] @ desc
            @ dquote # rest)
         = Some ((planet, desc), rest)"
proof -
  let ?tail = "str_of '' PlanetaryPeriodQualities { description: '' @ [dquote] @ desc @ dquote # rest"
  have nw: "\<not> is_word alnum 44"
    by (simp add: is_word_def)
  have t: "takeWhile (is_word alnum) (planet @ 44 # ?tail) = planet"
    using assms(2) nw by (intro takeWhile_stop) auto
  have d: "dropWhile (is_word alnum) (planet @ 44 # ?tail) = 44 # ?tail"
    using assms(2) nw by (intro dropWhile_stop) auto
  have s: "skip_to_description (str_of '' description: '' @ [dquote] @ desc @ dquote # rest)
           = Some (desc, rest)"
    using match_description_quoted [OF assms(3,4), of rest]
    by (simp add: match_description_def match_lit_def)
  have sp: "is_space 32" "\<not> is_space 80" "\<not> is_space 123"
    by (simp_all add: is_space_def)
  show ?thesis
    using assms(1) t d s sp
    by (simp add: match_planet_def match_lit_def match_spaces_def)
qed

lemma findall_planets_skip:
  "c \<noteq> 86 \<Longrightarrow> findall_planets alnum (c # s) = findall_planets alnum s"
  by (subst findall_planets.simps) (simp add: match_planet_def match_lit_def)

lemma findall_planets_block:
  assumes "planet \<noteq> []" and "\<forall>c\<in>set planet. is_word alnum c"
    and "desc \<noteq> []" and "dquote \<notin> set desc"
  shows "findall_planets alnum (planet_block planet desc @ rest)
         = (planet, desc) # findall_planets alnum rest"
proof -
  have "findall_planets alnum (planet_block planet desc @ rest)
        = (planet, desc) # findall_planets alnum (str_of '' }, '' @ rest)"
    using match_planet_block [OF assms, of "str_of '' }, '' @ rest"]
    by (subst findall_planets.simps) (simp add: planet_block_def)
  then show ?thesis
    by (simp add: findall_planets_skip)
qed

text \<open>An identifier of word characters and a description free of double quotes, neither empty.\<close>

definition well_formed :: "(nat \<Rightarrow> bool) \<Rightarrow> str \<times> str \<Rightarrow> bool" where
  "well_formed alnum m =
     (fst m \<noteq> [] \<and> list_all (is_word alnum) (fst m) \<and> snd m \<noteq> [] \<and> dquote \<notin> set (snd m))"

text \<open>A data file that consists of the blocks of the given records.\<close>

definition records_text :: "(str \<times> str) list \<Rightarrow> str" where
  "records_text ms = concat (map (\<lambda>(p, d). planet_block p d) ms)"

text \<open>The extraction gives back the records of such a file.\<close>

lemma findall_planets_records_text:
  "list_all (well_formed alnum) ms \<Longrightarrow> findall_planets alnum (records_text ms) = ms"
  unfolding records_text_def
  by (induction ms)
     (auto simp: findall_planets_Nil findall_planets_block well_formed_def list_all_iff)

subsection \<open>\<open>str.split\<close> and the whitespace-separated tokens\<close>

lemma py_split_Nil [simp]: "py_split [] = []"
  by (simp add: py_split.simps)

lemma py_split_space: "is_space c \<Longrightarrow> py_split (c # s) = py_split s"
  by (simp add: py_split.simps [of "c # s"] py_split.simps [of s])

lemma py_split_word:
  "\<not> is_space c \<Longrightarrow>
   py_split (c # s) = (c # takeWhile (\<lambda>x. \<not> is_space x) s) # py_split (dropWhile (\<lambda>x. \<not> is_space x) s)"
  by (simp add: py_split.simps [of "c # s"])

text \<open>
  The specification's reading of the word count: cut the description at every whitespace
  character, and count the pieces that are not empty.
\<close>

fun pieces :: "(nat \<Rightarrow> bool) \<Rightarrow> str \<Rightarrow> str list" where
  "pieces sep [] = [[]]"
| "pieces sep (c # cs) =
     (if sep c then [] # pieces sep cs
      else (case pieces sep cs of
              [] \<Rightarrow> [[c]]
            | w # ws \<Rightarrow> (c # w) # ws))"

definition whitespace_tokens :: "str \<Rightarrow> str list" where
  "whitespace_tokens s = filter (\<lambda>w. w \<noteq> []) (pieces is_space s)"

lemma pieces_unfold:
  "pieces sep s =
     takeWhile (\<lambda>x. \<not> sep x) s
     # (case dropWhile (\<lambda>x. \<not> sep x) s of [] \<Rightarrow> [] | c # r \<Rightarrow> pieces sep r)"
  by (induction s) (auto split: list.splits)

lemma py_split_tokens: "py_split s = whitespace_tokens s"
proof (induction s rule: length_induct)
  case (1 s)
  show ?case
  proof (cases s)
    case Nil
    then show ?thesis by (simp add: whitespace_tokens_def)
  next
    case (Cons c cs)
    show ?thesis
    proof (cases "is_space c")
      case True
      have "py_split cs = whitespace_tokens cs"
        using 1 Cons by simp
      with True Cons show ?thesis
        by (simp add: py_split_space whitespace_tokens_def)
    next
      case False
      let ?r = "dropWhile (\<lambda>x. \<not> is_space x) cs"
      have tok: "whitespace_tokens s
                 = (c # takeWhile (\<lambda>x. \<not> is_space x) cs)
                   # filter (\<lambda>w. w \<noteq> []) (case ?r of [] \<Rightarrow> [] | x # r \<Rightarrow> pieces is_space r)"
        using False Cons
        by (simp add: whitespace_tokens_def pieces_unfold [of is_space cs])
      have "py_split ?r = filter (\<lambda>w. w \<noteq> []) (case ?r of [] \<Rightarrow> [] | x # r \<Rightarrow> pieces is_space r)"
      proof (cases ?r)
        case Nil
        show ?thesis unfolding Nil by simp
      next
        case (Cons x r)
        then have x: "is_space x"
          using hd_dropWhile [of "\<lambda>x. \<not> is_space x" cs] by auto
        have "length r < length s"
          using length_dropWhile_le [of "\<lambda>x. \<not> is_space x" cs] Cons \<open>s = c # cs\<close> by simp
        then have "py_split r = whitespace_tokens r"
          using 1 by blast
        with x Cons show ?thesis
          by (simp add: py_split_space whitespace_tokens_def)
      qed
      with tok False Cons show ?thesis
        by (simp add: py_split_word)
    qed
  qed
qed

text \<open>A description of \<open>n\<close> words.\<close>

definition words :: "nat \<Rightarrow> str" where
  "words n = concat (replicate n (str_of ''w ''))"

lemma py_split_words: "py_split (words n) = replicate n (str_of ''w'')"
proof -
  have s: "is_space 32" "\<not> is_space 119"
    by (simp_all add: is_space_def)
  show ?thesis
    unfolding words_def
    by (induction n) (simp_all add: py_split_word py_split_space s)
qed

lemma words_no_quote: "dquote \<notin> set (words n)"
  by (simp add: words_def dquote_def)

lemma words_nonempty: "0 < n \<Longrightarrow> words n \<noteq> []"
  by (cases n) (simp_all add: words_def)

lemma well_formed_expected:
  assumes "p \<in> set expected_planets" and "0 < n"
  shows "well_formed alnum (p, words n)"
proof -
  have "p \<noteq> [] \<and> list_all (is_word alnum) p"
    using assms(1) by (auto simp: expected_planets_def is_word_def)
  with assms(2) show ?thesis
    by (simp add: well_formed_def words_nonempty words_no_quote)
qed

text \<open>The numbers and the padded name that the sample reports show.\<close>

lemma str_nat_samples:
  "str_nat 3 = str_of ''3''" "str_nat 9 = str_of ''9''" "str_nat 10 = str_of ''10''"
  "str_nat 50 = str_of ''50''" "str_nat 60 = str_of ''60''"
  by (simp_all add: str_nat.simps)

lemma replicate_numeral: "replicate (numeral k) x = x # replicate (pred_numeral k) x"
  by (simp add: numeral_eq_Suc)

subsection \<open>The lines of the report, written out\<close>

lemma planet_line_entry:
  "planet_line p (entry_of d) =
     (if length (py_split d) > 50
      then 0x2705 # str_of '' '' @ ljust 10 p @ str_of '' - ''
           @ rjust 3 (str_nat (length (py_split d))) @ str_of '' words (PASS)''
      else 0x274C # str_of '' '' @ ljust 10 p @ str_of '' - ''
           @ rjust 3 (str_nat (length (py_split d))) @ str_of '' words (FAIL: <50 words)'')"
  by (simp add: planet_line_def green_check_def red_cross_def)

lemma missing_line_text:
  "missing_line p = 0x274C # str_of '' '' @ ljust 10 p @ str_of '' - MISSING''"
  by (simp add: missing_line_def red_cross_def)

lemma found_line_text:
  "found_line n = 0x2713 # str_of '' Planets Found: '' @ str_nat n @ str_of ''/9''"
  by (simp add: found_line_def check_mark_def)

lemma verdict_line_text:
  "verdict_line all_valid n =
     (if all_valid \<and> n = 9 then 0x2705 # str_of '' ALL VALIDATION CHECKS PASSED''
      else 0x274C # str_of '' VALIDATION FAILED - See errors above'')"
  by (simp add: verdict_line_def passed_line_def failed_line_def green_check_def red_cross_def)

lemma ljust_Sun: "ljust 10 (str_of ''Sun'') = str_of ''Sun       ''"
  by (simp add: ljust_def replicate_numeral)

lemma ljust_Ketu: "ljust 10 (str_of ''Ketu'') = str_of ''Ketu      ''"
  by (simp add: ljust_def replicate_numeral)

lemma rjust_two_digits: "rjust 3 [a, b] = 32 # [a, b]"
  by (simp add: rjust_def)

subsection \<open>An expected planet without a record\<close>

text \<open>
  C3. When the extraction yields no record for one of the nine expected planets, the
  report has the MISSING line of that planet, whatever the second read does, and every run
  that ends normally has \<open>VALIDATION FAILED\<close> as its verdict, the last line but one.
\<close>

theorem missing_planet_fails:
  assumes "planet \<in> set expected_planets"
    and "planet \<notin> set (fst (extract_planet_records alnum content))"
  shows "0x274C # str_of '' '' @ ljust 10 planet @ str_of '' - MISSING''
           \<in> set (printed (validate_agent35 alnum (Inr content) secondary))
         \<and> (raised (validate_agent35 alnum (Inr content) secondary) = None \<longrightarrow>
              last (butlast (printed (validate_agent35 alnum (Inr content) secondary)))
                = 0x274C # str_of '' VALIDATION FAILED - See errors above'')"
proof -
  have none: "snd (extract_planet_records alnum content) planet = None"
    using assms(2) by (rule extract_absent)
  then have "report_line (snd (extract_planet_records alnum content)) planet = missing_line planet"
    by (simp add: report_line_def)
  then have line: "missing_line planet
                     \<in> set (printed (validate_agent35 alnum (Inr content) secondary))"
    using printed_report_line [OF assms(1), of alnum content secondary] by simp
  have "\<not> fst (snd (planets_section alnum content))"
    using assms(1) none by (force simp: planets_section_eq list_all_iff)
  then have "raised (validate_agent35 alnum (Inr content) secondary) = None \<Longrightarrow>
    last (butlast (printed (validate_agent35 alnum (Inr content) secondary)))
      = verdict_line False (snd (snd (planets_section alnum content)))"
    using normal_run_verdict [of alnum content secondary] by (auto simp: verdict_line_def)
  with line show ?thesis
    by (simp add: missing_line_text verdict_line_text)
qed

text \<open>A data file with a record of the Moon only: the Sun is reported missing.\<close>

definition moon_only :: str where
  "moon_only = records_text [(str_of ''Moon'', str_of ''calm and reflective'')]"

lemma moon_only_found:
  "findall_planets alnum moon_only = [(str_of ''Moon'', str_of ''calm and reflective'')]"
  unfolding moon_only_def
  by (intro findall_planets_records_text) (simp add: well_formed_def is_word_def dquote_def)

theorem missing_planet_fails_witness:
  "str_of ''Sun'' \<in> set expected_planets
   \<and> str_of ''Sun'' \<notin> set (fst (extract_planet_records no_alnum moon_only))
   \<and> 0x274C # str_of '' Sun        - MISSING''
       \<in> set (printed (validate_agent35 no_alnum (Inr moon_only) (Inr [])))
   \<and> last (butlast (printed (validate_agent35 no_alnum (Inr moon_only) (Inr []))))
       = 0x274C # str_of '' VALIDATION FAILED - See errors above''"
proof -
  have h1: "str_of ''Sun'' \<in> set expected_planets"
    by (simp add: expected_planets_def)
  have h2: "str_of ''Sun'' \<notin> set (fst (extract_planet_records no_alnum moon_only))"
    by (simp add: extract_found moon_only_found)
  have r: "raised (validate_agent35 no_alnum (Inr moon_only) (Inr [])) = None"
    by (simp add: run_witness_read split: prod.splits)
  show ?thesis
    using missing_planet_fails [OF h1 h2, of "Inr []"] h1 h2 r ljust_Sun
    by simp
qed

subsection \<open>The word count and the threshold\<close>

text \<open>
  C2. For every match of the extraction, the entry that the loop stores for it has, as
  \<open>word_count\<close>, the number of whitespace-separated tokens of the description, and
  \<open>valid\<close> is true exactly when that number is greater than 50. The same holds of every
  entry of the final dictionary. A description of exactly 50 words is not valid: when it is
  the last match of an expected planet, the report has the planet's line with the cross
  and \<open>(FAIL: <50 words)\<close>; with 51 words the line has the check and \<open>(PASS)\<close>.
\<close>

theorem valid_iff_more_than_50_words:
  assumes "findall_planets alnum content = before @ (planet, desc) # after"
  shows "snd (collect (before @ [(planet, desc)]) ([], Map.empty)) planet
           = Some \<lparr>description = desc, word_count = length (whitespace_tokens desc),
                   valid = (length (whitespace_tokens desc) > 50)\<rparr>
         \<and> (\<forall>p data. snd (extract_planet_records alnum content) p = Some data \<longrightarrow>
                (valid data \<longleftrightarrow> word_count data > 50)
                \<and> word_count data = length (whitespace_tokens (description data)))
         \<and> (length (whitespace_tokens desc) = 50 \<and> planet \<notin> fst ` set after
              \<and> planet \<in> set expected_planets \<longrightarrow>
              0x274C # str_of '' '' @ ljust 10 planet @ str_of '' -  50 words (FAIL: <50 words)''
                \<in> set (printed (validate_agent35 alnum (Inr content) secondary)))
         \<and> (length (whitespace_tokens desc) = 51 \<and> planet \<notin> fst ` set after
              \<and> planet \<in> set expected_planets \<longrightarrow>
              0x2705 # str_of '' '' @ ljust 10 planet @ str_of '' -  51 words (PASS)''
                \<in> set (printed (validate_agent35 alnum (Inr content) secondary)))"
proof (intro conjI allI impI)
  show "snd (collect (before @ [(planet, desc)]) ([], Map.empty)) planet
          = Some \<lparr>description = desc, word_count = length (whitespace_tokens desc),
                  valid = (length (whitespace_tokens desc) > 50)\<rparr>"
    by (simp add: collect_eq entry_of_def py_split_tokens)
next
  fix p data
  assume "snd (extract_planet_records alnum content) p = Some data"
  then obtain d where d: "data = entry_of d"
    by (auto simp: extract_descriptions)
  show "valid data \<longleftrightarrow> word_count data > 50"
    by (simp add: d)
  show "word_count data = length (whitespace_tokens (description data))"
    by (simp add: d py_split_tokens)
next
  assume a: "length (whitespace_tokens desc) = 50 \<and> planet \<notin> fst ` set after
             \<and> planet \<in> set expected_planets"
  then have "snd (extract_planet_records alnum content) planet = Some (entry_of desc)"
    using extract_last_match [OF assms] by simp
  then have "report_line (snd (extract_planet_records alnum content)) planet
             = planet_line planet (entry_of desc)"
    by (simp add: report_line_def)
  also have "\<dots> = 0x274C # str_of '' '' @ ljust 10 planet
                    @ str_of '' -  50 words (FAIL: <50 words)''"
    using a by (simp add: planet_line_entry py_split_tokens str_nat.simps rjust_def)
  finally show "0x274C # str_of '' '' @ ljust 10 planet @ str_of '' -  50 words (FAIL: <50 words)''
                  \<in> set (printed (validate_agent35 alnum (Inr content) secondary))"
    using printed_report_line [of planet alnum content secondary] a by simp
next
  assume a: "length (whitespace_tokens desc) = 51 \<and> planet \<notin> fst ` set after
             \<and> planet \<in> set expected_planets"
  then have "snd (extract_planet_records alnum content) planet = Some (entry_of desc)"
    using extract_last_match [OF assms] by simp
  then have "report_line (snd (extract_planet_records alnum content)) planet
             = planet_line planet (entry_of desc)"
    by (simp add: report_line_def)
  also have "\<dots> = 0x2705 # str_of '' '' @ ljust 10 planet @ str_of '' -  51 words (PASS)''"
    using a by (simp add: planet_line_entry py_split_tokens str_nat.simps rjust_def)
  finally show "0x2705 # str_of '' '' @ ljust 10 planet @ str_of '' -  51 words (PASS)''
                  \<in> set (printed (validate_agent35 alnum (Inr content) secondary))"
    using printed_report_line [of planet alnum content secondary] a by simp
qed

text \<open>
  A file with one record, of the Sun, whose description has 50 words, the last two of
  them separated by a no-break space, U+00A0.
\<close>

definition fifty_words :: str where
  "fifty_words = words 48 @ [119, 0xA0, 119]"

lemma fifty_words_count: "length (py_split fifty_words) = 50"
proof -
  have s: "is_space 32" "\<not> is_space 119" "is_space 0xA0"
    by (simp_all add: is_space_def)
  have "py_split (words n @ [119, 0xA0, 119]) = replicate n [119] @ [[119], [119]]" for n
    unfolding words_def
    by (induction n) (simp_all add: py_split_word py_split_space s)
  then show ?thesis
    by (simp add: fifty_words_def)
qed

theorem valid_iff_more_than_50_words_witness:
  "findall_planets no_alnum (records_text [(str_of ''Sun'', fifty_words)])
     = [] @ (str_of ''Sun'', fifty_words) # []
   \<and> length (whitespace_tokens fifty_words) = 50
   \<and> str_of ''Sun'' \<notin> fst ` set ([] :: (str \<times> str) list)
   \<and> str_of ''Sun'' \<in> set expected_planets
   \<and> 0x274C # str_of '' Sun        -  50 words (FAIL: <50 words)''
       \<in> set (printed (validate_agent35 no_alnum
                        (Inr (records_text [(str_of ''Sun'', fifty_words)])) (Inr [])))"
proof -
  have q: "dquote \<notin> set fifty_words"
    using words_no_quote [of 48] by (simp add: fifty_words_def dquote_def)
  have "well_formed no_alnum (str_of ''Sun'', fifty_words)"
    using q by (simp add: well_formed_def is_word_def fifty_words_def)
  then have h: "findall_planets no_alnum (records_text [(str_of ''Sun'', fifty_words)])
                  = [] @ (str_of ''Sun'', fifty_words) # []"
    using findall_planets_records_text [of no_alnum "[(str_of ''Sun'', fifty_words)]"] by simp
  have w: "length (whitespace_tokens fifty_words) = 50"
    by (simp add: py_split_tokens [symmetric] fifty_words_count)
  have e: "str_of ''Sun'' \<in> set expected_planets"
    by (simp add: expected_planets_def)
  show ?thesis
    using valid_iff_more_than_50_words [OF h, of "Inr []"] h w e ljust_Sun by simp
qed

subsection \<open>The completeness check\<close>

text \<open>
  C1. The completeness check, lines 43 to 53 together with the condition of line 114.
  For each expected planet of which a record was found, the report has the planet's line:
  the check, the padded name, the word count of the description and \<open>(PASS)\<close> when the
  count is above 50, the cross and \<open>(FAIL: <50 words)\<close> otherwise. For each expected planet
  without a record it has the MISSING line. The aggregate
  \<open>all_valid and len(planets_found) == 9\<close> is false exactly when an expected planet is
  missing, or a found record has no more than 50 words, or the number of records found is
  not 9. In a run that reads the witness module this aggregate alone decides the verdict.
\<close>

theorem check_completeness_verdict:
  assumes "extract_planet_records alnum content = (found, descriptions)"
    and "planets_section alnum content = (out, all_valid, n)"
  shows "(\<forall>p\<in>set expected_planets.
            case descriptions p of
              Some data \<Rightarrow>
                p \<in> set found
                \<and> (p, description data) \<in> set (findall_planets alnum content)
                \<and> word_count data = length (py_split (description data))
                \<and> (valid data \<longleftrightarrow> word_count data > 50)
                \<and> (if word_count data > 50
                    then 0x2705 # str_of '' '' @ ljust 10 p @ str_of '' - ''
                         @ rjust 3 (str_nat (word_count data)) @ str_of '' words (PASS)''
                    else 0x274C # str_of '' '' @ ljust 10 p @ str_of '' - ''
                         @ rjust 3 (str_nat (word_count data))
                         @ str_of '' words (FAIL: <50 words)'') \<in> set out
            | None \<Rightarrow>
                p \<notin> set found
                \<and> 0x274C # str_of '' '' @ ljust 10 p @ str_of '' - MISSING'' \<in> set out)
         \<and> n = length found
         \<and> ((all_valid \<and> n = 9) \<longleftrightarrow>
              \<not> ((\<exists>p\<in>set expected_planets. p \<notin> set found)
                 \<or> (\<exists>(p, d)\<in>set (findall_planets alnum content). \<not> length (py_split d) > 50)
                 \<or> length found \<noteq> 9))
         \<and> (\<forall>w. last (butlast (printed (validate_agent35 alnum (Inr content) (Inr w))))
                  = (if all_valid \<and> n = 9
                     then 0x2705 # str_of '' ALL VALIDATION CHECKS PASSED''
                     else 0x274C # str_of '' VALIDATION FAILED - See errors above''))"
proof -
  have found: "found = map fst (findall_planets alnum content)"
    using extract_found [of alnum content] assms(1) by simp
  have descs: "descriptions = snd (extract_planet_records alnum content)"
    using assms(1) by simp
  have fst_e: "fst (extract_planet_records alnum content) = found"
    using assms(1) by simp
  have out: "set (map (report_line descriptions) expected_planets) \<subseteq> set out"
    using assms(2) by (auto simp: planets_section_eq descs)
  have av: "all_valid \<longleftrightarrow> (\<forall>p\<in>set expected_planets. \<exists>data. descriptions p = Some data \<and> valid data)"
    using assms(2) by (auto simp: planets_section_eq descs list_all_iff split: option.splits)
  have n: "n = length found"
    using assms(2) by (simp add: planets_section_eq found)
  have lines: "\<forall>p\<in>set expected_planets.
            case descriptions p of
              Some data \<Rightarrow>
                p \<in> set found
                \<and> (p, description data) \<in> set (findall_planets alnum content)
                \<and> word_count data = length (py_split (description data))
                \<and> (valid data \<longleftrightarrow> word_count data > 50)
                \<and> (if word_count data > 50
                    then 0x2705 # str_of '' '' @ ljust 10 p @ str_of '' - ''
                         @ rjust 3 (str_nat (word_count data)) @ str_of '' words (PASS)''
                    else 0x274C # str_of '' '' @ ljust 10 p @ str_of '' - ''
                         @ rjust 3 (str_nat (word_count data))
                         @ str_of '' words (FAIL: <50 words)'') \<in> set out
            | None \<Rightarrow>
                p \<notin> set found
                \<and> 0x274C # str_of '' '' @ ljust 10 p @ str_of '' - MISSING'' \<in> set out"
  proof
    fix p assume p: "p \<in> set expected_planets"
    then have l: "report_line descriptions p \<in> set out"
      using out by auto
    show "case descriptions p of
              Some data \<Rightarrow>
                p \<in> set found
                \<and> (p, description data) \<in> set (findall_planets alnum content)
                \<and> word_count data = length (py_split (description data))
                \<and> (valid data \<longleftrightarrow> word_count data > 50)
                \<and> (if word_count data > 50
                    then 0x2705 # str_of '' '' @ ljust 10 p @ str_of '' - ''
                         @ rjust 3 (str_nat (word_count data)) @ str_of '' words (PASS)''
                    else 0x274C # str_of '' '' @ ljust 10 p @ str_of '' - ''
                         @ rjust 3 (str_nat (word_count data))
                         @ str_of '' words (FAIL: <50 words)'') \<in> set out
            | None \<Rightarrow>
                p \<notin> set found
                \<and> 0x274C # str_of '' '' @ ljust 10 p @ str_of '' - MISSING'' \<in> set out"
    proof (cases "descriptions p")
      case None
      then have "p \<notin> set found"
        using extract_present [of p alnum content] by (auto simp: fst_e descs)
      moreover have "missing_line p \<in> set out"
        using None l by (simp add: report_line_def)
      ultimately show ?thesis
        using None by (simp add: missing_line_text)
    next
      case (Some data)
      then obtain d where d: "data = entry_of d"
        "map_of (rev (findall_planets alnum content)) p = Some d"
        by (auto simp: descs extract_descriptions)
      have m: "(p, d) \<in> set (findall_planets alnum content)"
        using map_of_SomeD [OF d(2)] by simp
      then have f: "p \<in> set found"
        by (force simp: found)
      have "planet_line p (entry_of d) \<in> set out"
        using Some l d(1) by (simp add: report_line_def)
      then show ?thesis
        using Some d(1) m f by (auto simp: planet_line_entry split: if_splits)
    qed
  qed
  have verdict: "(all_valid \<and> n = 9) \<longleftrightarrow>
              \<not> ((\<exists>p\<in>set expected_planets. p \<notin> set found)
                 \<or> (\<exists>(p, d)\<in>set (findall_planets alnum content). \<not> length (py_split d) > 50)
                 \<or> length found \<noteq> 9)"
  proof
    assume a: "all_valid \<and> n = 9"
    then have sub: "set expected_planets \<subseteq> set found"
      using lines av by (fastforce split: option.splits)
    then have dist: "distinct found" and same: "set found = set expected_planets"
      using nine_found_distinct [of found] a n by auto
    have "length (py_split d) > 50" if "(p, d) \<in> set (findall_planets alnum content)" for p d
    proof -
      have "p \<in> set expected_planets"
        using that same by (force simp: found)
      moreover have "descriptions p = Some (entry_of d)"
        using extract_distinct_match [of alnum content p d] dist that by (simp add: fst_e descs)
      ultimately show ?thesis
        using a av by (auto simp: entry_of_def)
    qed
    with sub a n show "\<not> ((\<exists>p\<in>set expected_planets. p \<notin> set found)
                 \<or> (\<exists>(p, d)\<in>set (findall_planets alnum content). \<not> length (py_split d) > 50)
                 \<or> length found \<noteq> 9)"
      by auto
  next
    assume a: "\<not> ((\<exists>p\<in>set expected_planets. p \<notin> set found)
                 \<or> (\<exists>(p, d)\<in>set (findall_planets alnum content). \<not> length (py_split d) > 50)
                 \<or> length found \<noteq> 9)"
    have "\<exists>data. descriptions p = Some data \<and> valid data" if "p \<in> set expected_planets" for p
    proof -
      have "p \<in> set (fst (extract_planet_records alnum content))"
        using a that by (auto simp: fst_e)
      from extract_present [OF this]
      obtain desc where "(p, desc) \<in> set (findall_planets alnum content)"
        "descriptions p = Some (entry_of desc)"
        by (auto simp: descs)
      with a show ?thesis
        by (auto simp: entry_of_def)
    qed
    with a n show "all_valid \<and> n = 9"
      by (simp add: av)
  qed
  have "last (butlast (printed (validate_agent35 alnum (Inr content) (Inr w))))
          = (if all_valid \<and> n = 9
             then 0x2705 # str_of '' ALL VALIDATION CHECKS PASSED''
             else 0x274C # str_of '' VALIDATION FAILED - See errors above'')" for w
    using verdict_line_text [of all_valid n]
    by (simp add: run_witness_read assms(2) butlast_append)
  with lines n verdict show ?thesis
    by blast
qed

text \<open>All nine planets, 60 words each, except Ketu with 50.\<close>

definition one_short :: "(str \<times> str) list" where
  "one_short = map (\<lambda>p. (p, words (if p = str_of ''Ketu'' then 50 else 60))) expected_planets"

lemma one_short_found: "findall_planets alnum (records_text one_short) = one_short"
  by (intro findall_planets_records_text)
     (auto simp: one_short_def list_all_iff intro!: well_formed_expected)

theorem check_completeness_verdict_witness:
  "extract_planet_records no_alnum (records_text one_short)
     = (fst (extract_planet_records no_alnum (records_text one_short)),
        snd (extract_planet_records no_alnum (records_text one_short)))
   \<and> planets_section no_alnum (records_text one_short)
     = (fst (planets_section no_alnum (records_text one_short)),
        fst (snd (planets_section no_alnum (records_text one_short))),
        snd (snd (planets_section no_alnum (records_text one_short))))
   \<and> length (fst (extract_planet_records no_alnum (records_text one_short))) = 9
   \<and> set expected_planets \<subseteq> set (fst (extract_planet_records no_alnum (records_text one_short)))
   \<and> 0x2705 # str_of '' Sun        -  60 words (PASS)''
       \<in> set (fst (planets_section no_alnum (records_text one_short)))
   \<and> 0x274C # str_of '' Ketu       -  50 words (FAIL: <50 words)''
       \<in> set (fst (planets_section no_alnum (records_text one_short)))
   \<and> last (butlast (printed (validate_agent35 no_alnum (Inr (records_text one_short)) (Inr []))))
       = 0x274C # str_of '' VALIDATION FAILED - See errors above''"
proof -
  let ?c = "records_text one_short"
  let ?d = "snd (extract_planet_records no_alnum ?c)"
  have h1: "extract_planet_records no_alnum ?c
              = (fst (extract_planet_records no_alnum ?c), ?d)"
    by simp
  have h2: "planets_section no_alnum ?c
              = (fst (planets_section no_alnum ?c), fst (snd (planets_section no_alnum ?c)),
                 snd (snd (planets_section no_alnum ?c)))"
    by simp
  note inst = check_completeness_verdict [OF h1 h2]
  have f: "fst (extract_planet_records no_alnum ?c) = expected_planets"
    by (simp add: extract_found one_short_found) (simp add: one_short_def comp_def)
  have dist: "distinct (fst (extract_planet_records no_alnum ?c))"
    by (simp add: f expected_planets_distinct)
  have ketu: "(str_of ''Ketu'', words 50) \<in> set (findall_planets no_alnum ?c)"
    by (simp add: one_short_found) (simp add: one_short_def expected_planets_def)
  have sun: "(str_of ''Sun'', words 60) \<in> set (findall_planets no_alnum ?c)"
    by (simp add: one_short_found) (simp add: one_short_def expected_planets_def)
  have dk: "?d (str_of ''Ketu'') = Some (entry_of (words 50))"
    using extract_distinct_match [OF dist ketu] .
  have ds: "?d (str_of ''Sun'') = Some (entry_of (words 60))"
    using extract_distinct_match [OF dist sun] .
  have ek: "str_of ''Ketu'' \<in> set expected_planets" and es: "str_of ''Sun'' \<in> set expected_planets"
    by (simp_all add: expected_planets_def)
  have lk: "0x274C # str_of '' Ketu       -  50 words (FAIL: <50 words)''
              \<in> set (fst (planets_section no_alnum ?c))"
    using inst ek dk ljust_Ketu
    by (auto simp: py_split_words str_nat_samples rjust_two_digits dest!: bspec [where x = "str_of ''Ketu''"])
  have ls: "0x2705 # str_of '' Sun        -  60 words (PASS)''
              \<in> set (fst (planets_section no_alnum ?c))"
    using inst es ds ljust_Sun
    by (auto simp: py_split_words str_nat_samples rjust_two_digits dest!: bspec [where x = "str_of ''Sun''"])
  have "\<not> length (py_split (words 50)) > 50"
    by (simp add: py_split_words)
  with ketu have inv: "\<exists>(p, d)\<in>set (findall_planets no_alnum ?c). \<not> length (py_split d) > 50"
    by blast
  from inst inv
  have v: "last (butlast (printed (validate_agent35 no_alnum (Inr ?c) (Inr []))))
             = 0x274C # str_of '' VALIDATION FAILED - See errors above''"
    by presburger
  have l9: "length (fst (extract_planet_records no_alnum ?c)) = 9"
    by (simp add: f expected_planets_distinct)
  have sub: "set expected_planets \<subseteq> set (fst (extract_planet_records no_alnum ?c))"
    by (simp add: f)
  show ?thesis
    using h1 h2 l9 sub ls lk v by blast
qed

subsection \<open>The passing run\<close>

text \<open>
  C7. When the extraction finds each of the nine expected planets exactly once and nothing
  else, every description has 60 words, and the witness module has three test markers and
  the three prompt functions, the whole report is known but for the list-field section:
  the line \<open>Planets Found: 9/9\<close>, a PASS line for every planet in the expected order, the
  five check lines of the witness section, and the verdict
  \<open>ALL VALIDATION CHECKS PASSED\<close>. No exception is raised.
\<close>

theorem nine_valid_planets_pass:
  assumes "distinct (fst (extract_planet_records alnum content))"
    and "set (fst (extract_planet_records alnum content)) = set expected_planets"
    and "\<forall>(p, d)\<in>set (findall_planets alnum content). length (py_split d) = 60"
    and "count_literal (str_of ''#[test]'') w = 3"
    and "py_in (str_of ''generate_beginner_prompt'') w"
    and "py_in (str_of ''generate_intermediate_prompt'') w"
    and "py_in (str_of ''generate_advanced_prompt'') w"
  shows "printed (validate_agent35 alnum (Inr content) (Inr w)) =
           [replicate 70 61, str_of ''AGENT 35 VALIDATION REPORT'', replicate 70 61, [],
            0x2713 # str_of '' Planets Found: 9/9'', []]
           @ map (\<lambda>p. 0x2705 # str_of '' '' @ ljust 10 p @ str_of '' -  60 words (PASS)'')
               expected_planets
           @ [[], replicate 70 61]
           @ completeness_lines content
           @ [0x2713 # str_of '' Witness module exists'',
              0x2713 # str_of '' Unit tests found: 3'',
              0x2713 # str_of '' Beginner prompt function'',
              0x2713 # str_of '' Intermediate prompt function'',
              0x2713 # str_of '' Advanced prompt function'']
           @ [[], replicate 70 61, 0x2705 # str_of '' ALL VALIDATION CHECKS PASSED'',
              replicate 70 61]
         \<and> raised (validate_agent35 alnum (Inr content) (Inr w)) = None"
proof -
  let ?descs = "snd (extract_planet_records alnum content)"
  have "length (fst (extract_planet_records alnum content)) = card (set expected_planets)"
    using assms(1,2) distinct_card by fastforce
  then have n: "length (findall_planets alnum content) = 9"
    by (simp add: card_expected extract_found)
  have entry: "\<exists>d. ?descs p = Some (entry_of d) \<and> length (py_split d) = 60"
    if "p \<in> set expected_planets" for p
  proof -
    have "p \<in> set (fst (extract_planet_records alnum content))"
      using that assms(2) by simp
    from extract_present [OF this]
    obtain desc where "(p, desc) \<in> set (findall_planets alnum content)"
      "?descs p = Some (entry_of desc)"
      by blast
    with assms(3) show ?thesis by auto
  qed
  have line: "report_line ?descs p
                = 0x2705 # str_of '' '' @ ljust 10 p @ str_of '' -  60 words (PASS)''"
    if "p \<in> set expected_planets" for p
    using entry [OF that]
    by (auto simp: report_line_def planet_line_entry str_nat.simps rjust_def)
  have lines: "map (report_line ?descs) expected_planets
               = map (\<lambda>p. 0x2705 # str_of '' '' @ ljust 10 p @ str_of '' -  60 words (PASS)'')
                   expected_planets"
    using line by simp
  have av: "list_all (\<lambda>p. case ?descs p of Some data \<Rightarrow> valid data | None \<Rightarrow> False) expected_planets"
    using entry by (fastforce simp: list_all_iff)
  have ps: "planets_section alnum content =
              ([replicate 70 61, str_of ''AGENT 35 VALIDATION REPORT'', replicate 70 61, [],
                0x2713 # str_of '' Planets Found: 9/9'', []]
               @ map (\<lambda>p. 0x2705 # str_of '' '' @ ljust 10 p @ str_of '' -  60 words (PASS)'')
                   expected_planets
               @ [[], replicate 70 61], True, 9)"
    by (simp add: planets_section_eq n lines av found_line_text str_nat.simps rule70_def)
  have wl: "witness_lines w =
              [0x2713 # str_of '' Witness module exists'',
               0x2713 # str_of '' Unit tests found: 3'',
               0x2713 # str_of '' Beginner prompt function'',
               0x2713 # str_of '' Intermediate prompt function'',
               0x2713 # str_of '' Advanced prompt function'']"
    using assms(4-7)
    by (simp add: witness_lines_def function_line_def check_mark_def str_nat.simps)
  show ?thesis
    by (simp add: run_witness_read ps wl verdict_line_text rule70_def)
qed

text \<open>All nine planets with 60 words each, and a witness module with everything looked for.\<close>

definition nine_valid :: "(str \<times> str) list" where
  "nine_valid = map (\<lambda>p. (p, words 60)) expected_planets"

lemma nine_valid_found: "findall_planets alnum (records_text nine_valid) = nine_valid"
  by (intro findall_planets_records_text)
     (auto simp: nine_valid_def list_all_iff intro!: well_formed_expected)

definition witness_module :: str where
  "witness_module =
     str_of ''fn generate_beginner_prompt() fn generate_intermediate_prompt() fn generate_advanced_prompt() #[test] #[test] #[test]''"

theorem nine_valid_planets_pass_witness:
  "distinct (fst (extract_planet_records no_alnum (records_text nine_valid)))
   \<and> set (fst (extract_planet_records no_alnum (records_text nine_valid))) = set expected_planets
   \<and> list_all (\<lambda>(p, d). length (py_split d) = 60) (findall_planets no_alnum (records_text nine_valid))
   \<and> count_literal (str_of ''#[test]'') witness_module = 3
   \<and> py_in (str_of ''generate_beginner_prompt'') witness_module
   \<and> py_in (str_of ''generate_intermediate_prompt'') witness_module
   \<and> py_in (str_of ''generate_advanced_prompt'') witness_module
   \<and> last (butlast (printed (validate_agent35 no_alnum (Inr (records_text nine_valid))
                              (Inr witness_module))))
       = 0x2705 # str_of '' ALL VALIDATION CHECKS PASSED''
   \<and> 0x2713 # str_of '' Planets Found: 9/9''
       \<in> set (printed (validate_agent35 no_alnum (Inr (records_text nine_valid))
                        (Inr witness_module)))
   \<and> 0x2705 # str_of '' Sun        -  60 words (PASS)''
       \<in> set (printed (validate_agent35 no_alnum (Inr (records_text nine_valid))
                        (Inr witness_module)))
   \<and> raised (validate_agent35 no_alnum (Inr (records_text nine_valid)) (Inr witness_module)) = None"
proof -
  let ?c = "records_text nine_valid"
  let ?r = "validate_agent35 no_alnum (Inr ?c) (Inr witness_module)"
  have f: "fst (extract_planet_records no_alnum ?c) = expected_planets"
    by (simp add: extract_found nine_valid_found) (simp add: nine_valid_def comp_def)
  have h1: "distinct (fst (extract_planet_records no_alnum ?c))"
    by (simp add: f expected_planets_distinct)
  have h2: "set (fst (extract_planet_records no_alnum ?c)) = set expected_planets"
    by (simp add: f)
  have h3: "\<forall>(p, d)\<in>set (findall_planets no_alnum ?c). length (py_split d) = 60"
    by (simp add: nine_valid_found) (auto simp: nine_valid_def py_split_words)
  have h4: "count_literal (str_of ''#[test]'') witness_module = 3"
    unfolding witness_module_def by simp
  have h5: "py_in (str_of ''generate_beginner_prompt'') witness_module"
    unfolding witness_module_def by simp
  have h6: "py_in (str_of ''generate_intermediate_prompt'') witness_module"
    unfolding witness_module_def by simp
  have h7: "py_in (str_of ''generate_advanced_prompt'') witness_module"
    unfolding witness_module_def by simp
  from nine_valid_planets_pass [OF h1 h2 h3 h4 h5 h6 h7]
  have p: "printed ?r =
           [replicate 70 61, str_of ''AGENT 35 VALIDATION REPORT'', replicate 70 61, [],
            0x2713 # str_of '' Planets Found: 9/9'', []]
           @ map (\<lambda>p. 0x2705 # str_of '' '' @ ljust 10 p @ str_of '' -  60 words (PASS)'')
               expected_planets
           @ [[], replicate 70 61]
           @ completeness_lines ?c
           @ [0x2713 # str_of '' Witness module exists'',
              0x2713 # str_of '' Unit tests found: 3'',
              0x2713 # str_of '' Beginner prompt function'',
              0x2713 # str_of '' Intermediate prompt function'',
              0x2713 # str_of '' Advanced prompt function'']
           @ [[], replicate 70 61, 0x2705 # str_of '' ALL VALIDATION CHECKS PASSED'',
              replicate 70 61]"
    and r: "raised ?r = None"
    by blast+
  have v: "last (butlast (printed ?r)) = 0x2705 # str_of '' ALL VALIDATION CHECKS PASSED''"
    unfolding p by (simp add: butlast_append)
  have l: "0x2713 # str_of '' Planets Found: 9/9'' \<in> set (printed ?r)"
    unfolding p by simp
  have "str_of ''Sun'' \<in> set expected_planets"
    by (simp add: expected_planets_def)
  then have "0x2705 # str_of '' '' @ ljust 10 (str_of ''Sun'') @ str_of '' -  60 words (PASS)''
               \<in> set (printed ?r)"
    unfolding p by force
  then have ls: "0x2705 # str_of '' Sun        -  60 words (PASS)'' \<in> set (printed ?r)"
    using ljust_Sun by simp
  have "list_all (\<lambda>(p, d). length (py_split d) = 60) (findall_planets no_alnum ?c)"
    using h3 by (simp add: list_all_iff)
  then show ?thesis
    using h1 h2 h4 h5 h6 h7 v l ls r by blast
qed

subsection \<open>An identifier matched more than once\<close>

text \<open>
  C9. \<open>planets_found\<close> has one element for every match, and the report shows its
  length. So when all nine expected planets are found and one identifier occurs twice,
  more than nine are counted and every run that ends normally has \<open>VALIDATION FAILED\<close> as
  verdict, whatever the word counts. The dictionary keeps, for an identifier, the entry of
  its last match, and the line of an expected planet shows the word count of that match.
\<close>

theorem duplicate_matches_counted:
  "fst (extract_planet_records alnum content) = map fst (findall_planets alnum content)
   \<and> 0x2713 # str_of '' Planets Found: '' @ str_nat (length (findall_planets alnum content))
       @ str_of ''/9''
       \<in> set (printed (validate_agent35 alnum (Inr content) secondary))
   \<and> (set expected_planets \<subseteq> set (fst (extract_planet_records alnum content))
        \<and> \<not> distinct (fst (extract_planet_records alnum content)) \<longrightarrow>
        length (findall_planets alnum content) > 9
        \<and> (raised (validate_agent35 alnum (Inr content) secondary) = None \<longrightarrow>
             last (butlast (printed (validate_agent35 alnum (Inr content) secondary)))
               = 0x274C # str_of '' VALIDATION FAILED - See errors above''))
   \<and> (\<forall>before planet desc after.
         findall_planets alnum content = before @ (planet, desc) # after
         \<and> planet \<notin> fst ` set after \<longrightarrow>
         snd (extract_planet_records alnum content) planet
           = Some \<lparr>description = desc, word_count = length (py_split desc),
                   valid = (length (py_split desc) > 50)\<rparr>
         \<and> (planet \<in> set expected_planets \<longrightarrow>
              (if length (py_split desc) > 50
               then 0x2705 # str_of '' '' @ ljust 10 planet @ str_of '' - ''
                    @ rjust 3 (str_nat (length (py_split desc))) @ str_of '' words (PASS)''
               else 0x274C # str_of '' '' @ ljust 10 planet @ str_of '' - ''
                    @ rjust 3 (str_nat (length (py_split desc)))
                    @ str_of '' words (FAIL: <50 words)'')
                \<in> set (printed (validate_agent35 alnum (Inr content) secondary))))"
proof (intro conjI allI impI)
  show "fst (extract_planet_records alnum content) = map fst (findall_planets alnum content)"
    by (rule extract_found)
next
  have "found_line (length (findall_planets alnum content))
          \<in> set (fst (planets_section alnum content))"
    by (simp add: planets_section_eq)
  then have "found_line (length (findall_planets alnum content))
               \<in> set (printed (validate_agent35 alnum (Inr content) secondary))"
    using printed_planets_section [of alnum content secondary] by blast
  then show "0x2713 # str_of '' Planets Found: ''
               @ str_nat (length (findall_planets alnum content)) @ str_of ''/9''
               \<in> set (printed (validate_agent35 alnum (Inr content) secondary))"
    by (simp add: found_line_text)
next
  assume a: "set expected_planets \<subseteq> set (fst (extract_planet_records alnum content))
             \<and> \<not> distinct (fst (extract_planet_records alnum content))"
  let ?found = "fst (extract_planet_records alnum content)"
  have "card (set ?found) < length ?found"
    using a card_distinct [of ?found] card_length [of ?found] by force
  moreover have "9 \<le> card (set ?found)"
    using a card_mono [of "set ?found" "set expected_planets"] card_expected by simp
  ultimately show n: "length (findall_planets alnum content) > 9"
    by (simp add: extract_found)
  then have ne: "snd (snd (planets_section alnum content)) \<noteq> 9"
    by (simp add: planets_section_eq)
  assume "raised (validate_agent35 alnum (Inr content) secondary) = None"
  then show "last (butlast (printed (validate_agent35 alnum (Inr content) secondary)))
               = 0x274C # str_of '' VALIDATION FAILED - See errors above''"
    using normal_run_verdict [of alnum content secondary] ne
    by (auto simp: verdict_line_text)
next
  fix before planet desc after
  assume a: "findall_planets alnum content = before @ (planet, desc) # after
             \<and> planet \<notin> fst ` set after"
  then have e: "snd (extract_planet_records alnum content) planet = Some (entry_of desc)"
    using extract_last_match [of alnum content before planet desc after] by simp
  then show "snd (extract_planet_records alnum content) planet
           = Some \<lparr>description = desc, word_count = length (py_split desc),
                   valid = (length (py_split desc) > 50)\<rparr>"
    by (simp add: entry_of_def)
  assume "planet \<in> set expected_planets"
  then have "report_line (snd (extract_planet_records alnum content)) planet
               \<in> set (printed (validate_agent35 alnum (Inr content) secondary))"
    by (rule printed_report_line)
  then have "planet_line planet (entry_of desc)
               \<in> set (printed (validate_agent35 alnum (Inr content) secondary))"
    by (simp add: report_line_def e)
  then show "(if length (py_split desc) > 50
               then 0x2705 # str_of '' '' @ ljust 10 planet @ str_of '' - ''
                    @ rjust 3 (str_nat (length (py_split desc))) @ str_of '' words (PASS)''
               else 0x274C # str_of '' '' @ ljust 10 planet @ str_of '' - ''
                    @ rjust 3 (str_nat (length (py_split desc)))
                    @ str_of '' words (FAIL: <50 words)'')
                \<in> set (printed (validate_agent35 alnum (Inr content) secondary))"
    by (simp only: planet_line_entry)
qed

text \<open>All nine planets with 51 words each, and a second record of the Sun with 60.\<close>

definition sun_twice :: "(str \<times> str) list" where
  "sun_twice = map (\<lambda>p. (p, words 51)) expected_planets @ [(str_of ''Sun'', words 60)]"

lemma sun_twice_found: "findall_planets alnum (records_text sun_twice) = sun_twice"
  by (intro findall_planets_records_text)
     (auto simp: sun_twice_def list_all_iff expected_planets_def intro!: well_formed_expected)

theorem duplicate_matches_counted_witness:
  "set expected_planets \<subseteq> set (fst (extract_planet_records no_alnum (records_text sun_twice)))
   \<and> \<not> distinct (fst (extract_planet_records no_alnum (records_text sun_twice)))
   \<and> findall_planets no_alnum (records_text sun_twice)
       = map (\<lambda>p. (p, words 51)) expected_planets @ (str_of ''Sun'', words 60) # []
   \<and> str_of ''Sun'' \<notin> fst ` set ([] :: (str \<times> str) list)
   \<and> str_of ''Sun'' \<in> set expected_planets
   \<and> list_all (\<lambda>(p, d). length (py_split d) > 50)
         (findall_planets no_alnum (records_text sun_twice))
   \<and> 0x2713 # str_of '' Planets Found: 10/9''
       \<in> set (printed (validate_agent35 no_alnum (Inr (records_text sun_twice)) (Inr [])))
   \<and> 0x2705 # str_of '' Sun        -  60 words (PASS)''
       \<in> set (printed (validate_agent35 no_alnum (Inr (records_text sun_twice)) (Inr [])))
   \<and> last (butlast (printed (validate_agent35 no_alnum (Inr (records_text sun_twice)) (Inr []))))
       = 0x274C # str_of '' VALIDATION FAILED - See errors above''"
proof -
  let ?c = "records_text sun_twice"
  let ?r = "validate_agent35 no_alnum (Inr ?c) (Inr [])"
  have f: "fst (extract_planet_records no_alnum ?c) = expected_planets @ [str_of ''Sun'']"
    by (simp add: extract_found sun_twice_found) (simp add: sun_twice_def comp_def)
  have h1: "set expected_planets \<subseteq> set (fst (extract_planet_records no_alnum ?c))"
    by (auto simp: f)
  have sun: "str_of ''Sun'' \<in> set expected_planets"
    by (simp add: expected_planets_def)
  then have h2: "\<not> distinct (fst (extract_planet_records no_alnum ?c))"
    by (simp add: f)
  have h3: "findall_planets no_alnum ?c
              = map (\<lambda>p. (p, words 51)) expected_planets @ (str_of ''Sun'', words 60) # []"
    unfolding sun_twice_found by (simp add: sun_twice_def)
  have h4: "str_of ''Sun'' \<notin> fst ` set ([] :: (str \<times> str) list)"
    by simp
  have v: "list_all (\<lambda>(p, d). length (py_split d) > 50) (findall_planets no_alnum ?c)"
    by (simp add: sun_twice_found) (auto simp: sun_twice_def py_split_words list_all_iff)
  have n: "str_nat (length (findall_planets no_alnum ?c)) = str_of ''10''"
    by (simp add: sun_twice_found)
       (simp add: sun_twice_def expected_planets_distinct str_nat_samples)
  have w: "length (py_split (words 60)) = 60"
    by (simp add: py_split_words)
  note inst = duplicate_matches_counted [of no_alnum ?c "Inr []"]
  have r: "raised ?r = None"
    by (simp add: run_witness_read split: prod.splits)
  have a: "0x2713 # str_of '' Planets Found: 10/9'' \<in> set (printed ?r)"
    using inst n by simp
  have b: "last (butlast (printed ?r)) = 0x274C # str_of '' VALIDATION FAILED - See errors above''"
    using inst h1 h2 r by blast
  have "(if length (py_split (words 60)) > 50
         then 0x2705 # str_of '' '' @ ljust 10 (str_of ''Sun'') @ str_of '' - ''
              @ rjust 3 (str_nat (length (py_split (words 60)))) @ str_of '' words (PASS)''
         else 0x274C # str_of '' '' @ ljust 10 (str_of ''Sun'') @ str_of '' - ''
              @ rjust 3 (str_nat (length (py_split (words 60))))
              @ str_of '' words (FAIL: <50 words)'')
          \<in> set (printed ?r)"
    using inst h3 h4 sun by blast
  then have c: "0x2705 # str_of '' Sun        -  60 words (PASS)'' \<in> set (printed ?r)"
    using ljust_Sun by (simp add: w str_nat_samples rjust_two_digits)
  show ?thesis
    using h1 h2 h3 h4 sun v a b c by blast
qed

subsection \<open>The section between two markers\<close>

text \<open>\<open>find\<close> reports the first position at which the substring occurs.\<close>

lemma find_from_first:
  "find_from k sub s = int m \<Longrightarrow>
   k \<le> m \<and> m - k \<le> length s \<and> prefix sub (drop (m - k) s)
   \<and> (\<forall>i<m - k. \<not> prefix sub (drop i s))"
proof (induction s arbitrary: k)
  case Nil
  then show ?case by (auto split: if_splits)
next
  case (Cons c cs)
  show ?case
  proof (cases "prefix sub (c # cs)")
    case True
    with Cons.prems show ?thesis by simp
  next
    case False
    with Cons.prems have "find_from (Suc k) sub cs = int m"
      by simp
    from Cons.IH [OF this]
    have m: "Suc k \<le> m" "m - Suc k \<le> length cs" "prefix sub (drop (m - Suc k) cs)"
      and no: "\<forall>i<m - Suc k. \<not> prefix sub (drop i cs)"
      by auto
    have d: "m - k = Suc (m - Suc k)"
      using m(1) by simp
    have "\<not> prefix sub (drop i (c # cs))" if "i < m - k" for i
    proof (cases i)
      case 0
      with False show ?thesis by simp
    next
      case (Suc j)
      with that d no show ?thesis by simp
    qed
    with m d show ?thesis by simp
  qed
qed

text \<open>
  C6, as amended. When \<open>find\<close> locates the start marker at \<open>i\<close> and the end marker at
  \<open>j\<close>, and \<open>i\<close> is not after \<open>j\<close>, the section is the substring of the content from
  position \<open>i\<close>, included, to position \<open>j\<close>, excluded; \<open>i\<close> and \<open>j\<close> are the first
  positions at which the markers occur.
\<close>

theorem isolate_section_first_occurrences:
  assumes "py_find content start_marker = int i"
    and "py_find content end_marker = int j"
    and "i \<le> j"
  shows "isolate_section content start_marker end_marker = take (j - i) (drop i content)
         \<and> j \<le> length content
         \<and> prefix start_marker (drop i content)
         \<and> prefix end_marker (drop j content)
         \<and> (\<forall>k<i. \<not> prefix start_marker (drop k content))
         \<and> (\<forall>k<j. \<not> prefix end_marker (drop k content))"
proof -
  have a: "i \<le> length content" "prefix start_marker (drop i content)"
    "\<forall>k<i. \<not> prefix start_marker (drop k content)"
    using find_from_first [of 0 start_marker content i] assms(1) by (auto simp: py_find_def)
  have b: "j \<le> length content" "prefix end_marker (drop j content)"
    "\<forall>k<j. \<not> prefix end_marker (drop k content)"
    using find_from_first [of 0 end_marker content j] assms(2) by (auto simp: py_find_def)
  have "isolate_section content start_marker end_marker = take (j - i) (drop i content)"
    using a(1) b(1) assms by (simp add: isolate_section_def py_slice_def slice_index_def)
  with a b show ?thesis by blast
qed

definition sun_then_moon :: str where
  "sun_then_moon = str_of ''// data VedicPlanet::Sun, themes VedicPlanet::Moon, themes''"

theorem isolate_section_first_occurrences_witness:
  "py_find sun_then_moon (str_of ''VedicPlanet::Sun,'') = int 8
   \<and> py_find sun_then_moon (str_of ''VedicPlanet::Moon,'') = int 33
   \<and> (8 :: nat) \<le> 33
   \<and> sun_section sun_then_moon = str_of ''VedicPlanet::Sun, themes ''"
proof -
  have h1: "py_find sun_then_moon (str_of ''VedicPlanet::Sun,'') = int 8"
    by (simp add: sun_then_moon_def py_find_def)
  have h2: "py_find sun_then_moon (str_of ''VedicPlanet::Moon,'') = int 33"
    by (simp add: sun_then_moon_def py_find_def)
  have h3: "(8 :: nat) \<le> 33"
    by simp
  have t: "take (33 - 8) (drop 8 sun_then_moon) = str_of ''VedicPlanet::Sun, themes ''"
    by (simp add: sun_then_moon_def)
  show ?thesis
    using isolate_section_first_occurrences [OF h1 h2 h3] h1 h2 t
    by (simp add: sun_section_def)
qed

text \<open>
  C6, as stated, asks for the substring from the start marker to the end marker that
  follows it. In the text below the Sun marker is followed later by the Moon marker, but
  the Moon marker also occurs before it: \<open>find\<close> reports that first occurrence, the slice
  runs from position 19 to position 0, and the section is empty.
\<close>

definition moon_before_sun :: str where
  "moon_before_sun =
     str_of ''VedicPlanet::Moon, VedicPlanet::Sun, themes VedicPlanet::Moon, themes''"

theorem isolate_section_counterexample:
  "moon_before_sun = str_of ''VedicPlanet::Moon, '' @ str_of ''VedicPlanet::Sun,''
                     @ str_of '' themes '' @ str_of ''VedicPlanet::Moon,'' @ str_of '' themes''
   \<and> isolate_section moon_before_sun (str_of ''VedicPlanet::Sun,'') (str_of ''VedicPlanet::Moon,'')
       = []
   \<and> isolate_section moon_before_sun (str_of ''VedicPlanet::Sun,'') (str_of ''VedicPlanet::Moon,'')
       \<noteq> str_of ''VedicPlanet::Sun,'' @ str_of '' themes ''"
  by (simp add: moon_before_sun_def isolate_section_def py_find_def py_slice_def slice_index_def)

subsection \<open>Counting the items of a list field\<close>

lemma findall_field_no_match:
  "\<forall>i\<le>length s. match_field field (drop i s) = None \<Longrightarrow> findall_field field s = []"
proof (induction s)
  case Nil
  then show ?case by (simp add: findall_field.simps)
next
  case (Cons c cs)
  from Cons.prems have "match_field field (c # cs) = None"
    by (metis drop0 le0)
  moreover have "\<forall>i\<le>length cs. match_field field (drop i cs) = None"
    using Cons.prems by (metis Suc_le_mono drop_Suc_Cons length_Cons)
  ultimately show ?case
    using Cons.IH by (simp add: findall_field.simps [of field "c # cs"])
qed

lemma findall_field_skip:
  "\<forall>i<length before. match_field field (drop i (before @ s)) = None \<Longrightarrow>
   findall_field field (before @ s) = findall_field field s"
proof (induction before)
  case Nil
  show ?case by simp
next
  case (Cons c cs)
  from Cons.prems have "match_field field (c # cs @ s) = None"
    by (metis append_Cons drop0 length_greater_0_conv list.distinct(1))
  moreover have "\<forall>i<length cs. match_field field (drop i (cs @ s)) = None"
    using Cons.prems by (metis Suc_less_eq append_Cons drop_Suc_Cons length_Cons)
  ultimately show ?case
    using Cons.IH by (simp add: findall_field.simps [of field "c # cs @ s"])
qed

lemma lazy_to_bracket_first:
  "rbracket \<notin> set body \<Longrightarrow> lazy_to_bracket (body @ rbracket # rest) = Some (body, rest)"
  by (induction body) auto

lemma match_field_list:
  assumes "spaces \<noteq> []" and "\<forall>c\<in>set spaces. is_space c" and "rbracket \<notin> set body"
  shows "match_field field
           (field @ str_of '':'' @ spaces @ str_of ''vec!['' @ body @ rbracket # rest)
         = Some (body, rest)"
proof -
  have v: "\<not> is_space 118"
    by (simp add: is_space_def)
  have "match_spaces (spaces @ 118 # str_of ''ec!['' @ body @ rbracket # rest)
        = Some (118 # str_of ''ec!['' @ body @ rbracket # rest)"
    using assms(1,2) v by (simp add: match_spaces_def takeWhile_stop dropWhile_stop)
  moreover have "match_lit (field @ str_of '':'')
                   (field @ str_of '':'' @ spaces @ str_of ''vec!['' @ body @ rbracket # rest)
                 = Some (spaces @ str_of ''vec!['' @ body @ rbracket # rest)"
    using match_lit_append [of "field @ str_of '':''"] by simp
  ultimately show ?thesis
    using assms(3) by (simp add: match_field_def match_lit_def lazy_to_bracket_first)
qed

text \<open>A literal that does not occur in \<open>u\<close> cannot start inside \<open>u\<close> when the character after \<open>u\<close> is
  not one of its own.\<close>

lemma prefix_stops_before:
  assumes "prefix lit (u @ q # r)" and "q \<notin> set lit"
  shows "prefix lit u"
proof -
  from assms(1) consider "prefix lit u" | us where "lit = u @ us" "prefix us (q # r)"
    by (auto simp: prefix_append)
  then show ?thesis
  proof cases
    case 1
    then show ?thesis .
  next
    case 2
    with assms(2) have "us = []"
      by (cases us) auto
    with 2 show ?thesis by simp
  qed
qed

lemma count_literal_skip:
  assumes "\<not> py_in lit u" and "q \<notin> set lit"
  shows "count_literal lit (u @ q # r) = count_literal lit (q # r)"
  using assms(1)
proof (induction u)
  case Nil
  show ?case by simp
next
  case (Cons c cs)
  have "\<not> prefix lit (c # cs @ q # r)"
    using prefix_stops_before [of lit "c # cs" q r] assms(2) Cons.prems by auto
  moreover have "\<not> py_in lit cs"
    using Cons.prems by simp
  ultimately show ?case
    using Cons.IH by simp
qed

lemma count_literal_free: "\<not> py_in lit u \<Longrightarrow> count_literal lit u = 0"
  by (induction u) auto

text \<open>
  An item of a list field is a quoted text converted with \<open>.to_string()\<close>. The body of a
  list is a sequence of items, each after some text (the opening indentation, or the
  comma and the whitespace after the item before), and some text after the last item.
\<close>

definition item :: "str \<Rightarrow> str" where
  "item t = [dquote] @ t @ [dquote] @ str_of ''.to_string()''"

definition list_body :: "(str \<times> str) list \<Rightarrow> str \<Rightarrow> str" where
  "list_body items trail = concat (map (\<lambda>(gap, t). gap @ item t) items) @ trail"

lemma count_literal_item:
  assumes "\<not> py_in (str_of ''.to_string()'') gap" and "\<not> py_in (str_of ''.to_string()'') t"
  shows "count_literal (str_of ''.to_string()'') (gap @ item t @ r)
         = Suc (count_literal (str_of ''.to_string()'') r)"
proof -
  let ?m = "str_of ''.to_string()''"
  have q: "dquote \<notin> set ?m"
    by (simp add: dquote_def)
  have "count_literal ?m (gap @ item t @ r) = count_literal ?m (gap @ dquote # t @ dquote # ?m @ r)"
    by (simp add: item_def)
  also have "\<dots> = count_literal ?m (dquote # t @ dquote # ?m @ r)"
    using assms(1) q by (rule count_literal_skip)
  also have "\<dots> = count_literal ?m (t @ dquote # ?m @ r)"
    by (simp add: dquote_def)
  also have "\<dots> = count_literal ?m (dquote # ?m @ r)"
    using assms(2) q by (rule count_literal_skip)
  also have "\<dots> = Suc (count_literal ?m r)"
    by (simp add: dquote_def)
  finally show ?thesis .
qed

lemma count_literal_list_body:
  assumes "\<forall>(gap, t)\<in>set items.
             \<not> py_in (str_of ''.to_string()'') gap \<and> \<not> py_in (str_of ''.to_string()'') t"
    and "\<not> py_in (str_of ''.to_string()'') trail"
  shows "count_literal (str_of ''.to_string()'') (list_body items trail) = length items"
  using assms(1)
proof (induction items)
  case Nil
  show ?case
    using assms(2) by (simp add: list_body_def count_literal_free)
next
  case (Cons a items)
  obtain gap t where a: "a = (gap, t)"
    by (cases a) auto
  have "count_literal (str_of ''.to_string()'') (gap @ item t @ list_body items trail)
        = Suc (count_literal (str_of ''.to_string()'') (list_body items trail))"
    using Cons.prems a by (intro count_literal_item) auto
  then show ?case
    using Cons a by (simp add: list_body_def)
qed

text \<open>
  C5, as amended. \<open>count_items\<close> returns 0 when the pattern of the field matches at no
  position of the section. When its first match is the field name with its colon,
  whitespace, \<open>vec![\<close>, a body without a closing bracket and then \<open>]\<close>, it returns the
  number of \<open>.to_string()\<close> in that body; for a body of \<open>k\<close> items \<open>"text".to_string()\<close>,
  where neither the texts nor what stands between and around the items contains
  \<open>.to_string()\<close>, that number is \<open>k\<close>.
\<close>

theorem count_items_counts_items:
  "((\<forall>i\<le>length section. match_field pattern (drop i section) = None) \<longrightarrow>
      count_items pattern section = 0)
   \<and> (section = before @ pattern @ str_of '':'' @ spaces @ str_of ''vec!['' @ body
                 @ rbracket # after
       \<and> (\<forall>i<length before. match_field pattern (drop i section) = None)
       \<and> spaces \<noteq> [] \<and> (\<forall>c\<in>set spaces. is_space c)
       \<and> rbracket \<notin> set body \<longrightarrow>
       count_items pattern section = count_literal (str_of ''.to_string()'') body
       \<and> (body = list_body items trail
            \<and> (\<forall>(gap, t)\<in>set items.
                  \<not> py_in (str_of ''.to_string()'') gap \<and> \<not> py_in (str_of ''.to_string()'') t)
            \<and> \<not> py_in (str_of ''.to_string()'') trail \<longrightarrow>
            count_items pattern section = length items))"
proof (intro conjI impI)
  assume "\<forall>i\<le>length section. match_field pattern (drop i section) = None"
  then show "count_items pattern section = 0"
    by (simp add: count_items_def findall_field_no_match)
next
  assume a: "section = before @ pattern @ str_of '':'' @ spaces @ str_of ''vec!['' @ body
                 @ rbracket # after
       \<and> (\<forall>i<length before. match_field pattern (drop i section) = None)
       \<and> spaces \<noteq> [] \<and> (\<forall>c\<in>set spaces. is_space c)
       \<and> rbracket \<notin> set body"
  let ?s = "pattern @ str_of '':'' @ spaces @ str_of ''vec!['' @ body @ rbracket # after"
  have sec: "section = before @ ?s"
    using a by simp
  have "\<forall>i<length before. match_field pattern (drop i (before @ ?s)) = None"
    using a sec by simp
  then have "findall_field pattern section = findall_field pattern ?s"
    unfolding sec by (rule findall_field_skip)
  also have "\<dots> = body # findall_field pattern after"
    using a match_field_list [of spaces body pattern after]
    by (subst findall_field.simps) simp
  finally show c: "count_items pattern section = count_literal (str_of ''.to_string()'') body"
    by (simp add: count_items_def)
  assume "body = list_body items trail
            \<and> (\<forall>(gap, t)\<in>set items.
                  \<not> py_in (str_of ''.to_string()'') gap \<and> \<not> py_in (str_of ''.to_string()'') t)
            \<and> \<not> py_in (str_of ''.to_string()'') trail"
  then show "count_items pattern section = length items"
    using c count_literal_list_body [of items trail] by simp
qed

lemma all_le_list_all: "(\<forall>i\<le>n. P i) \<longleftrightarrow> list_all P [0..<Suc n]"
  by (auto simp: list_all_iff less_Suc_eq_le)

lemma all_less_list_all: "(\<forall>i<n. P i) \<longleftrightarrow> list_all P [0..<n]"
  by (auto simp: list_all_iff)

text \<open>
  The themes of the Sun in the layout of the Rust formatter, one item on a line, after a
  comment that names the field without the list.
\<close>

definition sun_items :: "(str \<times> str) list" where
  "sun_items =
     [(10 # str_of ''    '', str_of ''leadership''),
      (44 # 10 # str_of ''    '', str_of ''vitality''),
      (44 # 10 # str_of ''    '', str_of ''authority'')]"

definition sun_themes :: str where
  "sun_themes =
     str_of ''// themes: listed below'' @ [10] @ str_of ''themes: vec!['' @ list_body sun_items [44, 10]
     @ [rbracket] @ str_of '',''"

theorem count_items_counts_items_witness:
  "count_items theme_pattern (str_of ''life_areas: vec![]'') = 0
   \<and> sun_themes = (str_of ''// themes: listed below'' @ [10]) @ theme_pattern @ str_of '':''
                    @ str_of '' '' @ str_of ''vec!['' @ list_body sun_items [44, 10]
                    @ rbracket # str_of '',''
   \<and> count_items theme_pattern sun_themes = 3"
proof -
  let ?m = "str_of ''.to_string()''"
  have z: "\<forall>i\<le>length (str_of ''life_areas: vec![]'').
             match_field theme_pattern (drop i (str_of ''life_areas: vec![]'')) = None"
    unfolding all_le_list_all
    by (simp add: match_field_def match_lit_def theme_pattern_def)
  have s: "sun_themes = (str_of ''// themes: listed below'' @ [10]) @ theme_pattern @ str_of '':''
                    @ str_of '' '' @ str_of ''vec!['' @ list_body sun_items [44, 10]
                    @ rbracket # str_of '',''"
    by (simp add: sun_themes_def theme_pattern_def)
  have f: "\<forall>i<length (str_of ''// themes: listed below'' @ [10]).
             match_field theme_pattern (drop i sun_themes) = None"
    unfolding all_less_list_all
    by (simp add: sun_themes_def match_field_def match_lit_def match_spaces_def is_space_def
        theme_pattern_def)
  have sp: "str_of '' '' \<noteq> [] \<and> (\<forall>c\<in>set (str_of '' ''). is_space c)"
    by (simp add: is_space_def)
  have b: "rbracket \<notin> set (list_body sun_items [44, 10])"
    by (simp add: list_body_def sun_items_def item_def rbracket_def dquote_def)
  have t: "(\<forall>(gap, t)\<in>set sun_items. \<not> py_in ?m gap \<and> \<not> py_in ?m t) \<and> \<not> py_in ?m [44, 10]"
    by (simp add: sun_items_def)
  have "count_items theme_pattern (str_of ''life_areas: vec![]'') = 0"
    using count_items_counts_items [of "str_of ''life_areas: vec![]''" theme_pattern] z by blast
  moreover have "count_items theme_pattern sun_themes = length sun_items"
    using count_items_counts_items
      [of sun_themes theme_pattern "str_of ''// themes: listed below'' @ [10]" "str_of '' ''"
          "list_body sun_items [44, 10]" "str_of '',''" sun_items "[44, 10]"]
      s f sp b t
    by blast
  ultimately show ?thesis
    using s by (simp add: sun_items_def)
qed

text \<open>
  C5, as stated, promises \<open>k\<close> for every section with exactly \<open>k\<close> items. A list with the
  one item \<open>"dawn]dusk".to_string()\<close> gives 0, because the lazy group ends at the first
  closing bracket, inside the text; a list with the one item
  \<open>"call .to_string() twice".to_string()\<close> gives 2, because the marker is counted inside the
  text as well.
\<close>

theorem count_items_counterexample:
  "count_items theme_pattern
     (str_of ''themes: vec!['' @ item (str_of ''dawn]dusk'') @ [rbracket]) = 0
   \<and> count_items theme_pattern
       (str_of ''themes: vec!['' @ item (str_of ''dawn]dusk'') @ [rbracket])
       \<noteq> length [str_of ''dawn]dusk'']
   \<and> count_items theme_pattern
       (str_of ''themes: vec!['' @ item (str_of ''call .to_string() twice'') @ [rbracket]) = 2
   \<and> count_items theme_pattern
       (str_of ''themes: vec!['' @ item (str_of ''call .to_string() twice'') @ [rbracket])
       \<noteq> length [str_of ''call .to_string() twice'']"
proof -
  have sp: "is_space 32" "\<not> is_space 118"
    by (simp_all add: is_space_def)
  have a: "findall_field theme_pattern
             (str_of ''themes: vec!['' @ item (str_of ''dawn]dusk'') @ [rbracket])
           = (dquote # str_of ''dawn'') # findall_field theme_pattern
               (str_of ''dusk'' @ dquote # str_of ''.to_string()'' @ [rbracket])"
    by (subst findall_field.simps)
       (simp add: match_field_def match_lit_def match_spaces_def sp theme_pattern_def item_def
          rbracket_def dquote_def)
  have b: "findall_field theme_pattern
             (str_of ''themes: vec!['' @ item (str_of ''call .to_string() twice'') @ [rbracket])
           = item (str_of ''call .to_string() twice'') # findall_field theme_pattern []"
    by (subst findall_field.simps)
       (simp add: match_field_def match_lit_def match_spaces_def sp theme_pattern_def item_def
          rbracket_def dquote_def)
  have c1: "count_items theme_pattern
              (str_of ''themes: vec!['' @ item (str_of ''dawn]dusk'') @ [rbracket]) = 0"
    by (simp only: count_items_def a list.case) (simp add: dquote_def)
  have c2: "count_items theme_pattern
              (str_of ''themes: vec!['' @ item (str_of ''call .to_string() twice'') @ [rbracket])
            = 2"
    by (simp only: count_items_def b list.case) (simp add: item_def dquote_def)
  show ?thesis
    unfolding c1 c2 by simp
qed

end
